theory Spec2Isabelle
  imports Complex_Main
begin

section \<open>Dynamic values and failures\<close>

text \<open>
  Arguments and results cross the dispatch boundary as Go \<^verbatim>\<open>interface{}\<close> values.
  \<open>NilV\<close> is the nil interface. A float is kept as the rational it denotes: the
  engine only passes values through.
\<close>

datatype val = NilV | IntV int | FloatV rat | StrV string | BoolV bool | ListV "val list"

text \<open>
  \<open>LogAndPanic msg ctx\<close> is the fatal path \<^verbatim>\<open>logging.LogAndPanic(log, msg, ctx...)\<close>,
  with its key/value context. \<open>Panic\<close> is any other Go panic (a nil dereference, a
  panic of \<^verbatim>\<open>reflect.Value.Call\<close> or of the layer itself). \<open>OutOfFuel\<close> is not a Go
  value: it marks a run that did not return within the given number of nested layer
  invocations.
\<close>

datatype error =
    LogAndPanic string "(string \<times> string) list"
  | Panic string
  | OutOfFuel

section \<open>Method dispatch (\<^verbatim>\<open>RecordCollection.Call\<close>, \<^verbatim>\<open>Super\<close>, \<^verbatim>\<open>call\<close>)\<close>

type_synonym layer_ptr = nat
type_synonym methInfo_ptr = nat

text \<open>Modelled from the spec: the declarations of \<^verbatim>\<open>RecordCollection\<close> and of its model
  are not among the sources. The fields are those \<^verbatim>\<open>Call\<close>, \<^verbatim>\<open>Super\<close> and \<^verbatim>\<open>call\<close>
  read: \<^verbatim>\<open>rc.mi.name\<close>, \<^verbatim>\<open>rc.mi.methods\<close> (\<^verbatim>\<open>rc.mi.methods.get(methName)\<close> is the
  lookup \<open>methods (mi rc) methName\<close>, \<open>None\<close> for a false \<^verbatim>\<open>ok\<close>) and
  \<^verbatim>\<open>rc.callStack\<close>, a slice of layer pointers with the innermost frame first.\<close>

record modelInfo =
  name :: string
  methods :: "string \<rightharpoonup> methInfo_ptr"

record RecordCollection =
  mi :: modelInfo
  callStack :: "layer_ptr list"

text \<open>
  What a layer's function can do with the collection it receives: \<^verbatim>\<open>rc.Super(args...)\<close>
  and \<^verbatim>\<open>rc.Call(methName, args...)\<close>. A layer function is a Go function value; it is
  modelled as a function of these two entry points, of the receiver \<^verbatim>\<open>inVals[0]\<close> and of
  the remaining arguments \<^verbatim>\<open>inVals[1:]\<close>, that returns the list of values
  \<^verbatim>\<open>reflect.Value.Call\<close> returns, or panics.
\<close>

record dispatcher =
  rcSuper :: "RecordCollection \<Rightarrow> val list \<Rightarrow> error + val"
  rcCall :: "RecordCollection \<Rightarrow> string \<Rightarrow> val list \<Rightarrow> error + val"

type_synonym funcval = "dispatcher \<Rightarrow> RecordCollection \<Rightarrow> val list \<Rightarrow> error + val list"

text \<open>Modelled from the spec: the declarations of \<^verbatim>\<open>methodLayer\<close> and \<^verbatim>\<open>methodInfo\<close>
  are not among the sources. The fields are those the dispatch code reads
  (\<^verbatim>\<open>methLayer.funcValue\<close>, \<^verbatim>\<open>currentLayer.methInfo\<close>, \<^verbatim>\<open>methInfo.topLayer\<close>); per the
  spec a layer is linked to the layer it overrides, which \<open>nextLayer\<close> records.\<close>

record methodLayer =
  methInfo :: methInfo_ptr
  funcValue :: funcval

record methodInfo =
  topLayer :: layer_ptr
  nextLayer :: "layer_ptr \<rightharpoonup> layer_ptr"

text \<open>The heap the pointers \<^verbatim>\<open>*methodLayer\<close> and \<^verbatim>\<open>*methodInfo\<close> point into;
  \<open>heapTop\<close> is the next address an allocation returns.\<close>

record store =
  layers :: "layer_ptr \<rightharpoonup> methodLayer"
  methInfos :: "methInfo_ptr \<rightharpoonup> methodInfo"
  heapTop :: nat

text \<open>Modelled from the spec: \<^verbatim>\<open>methodInfo.getNextLayer\<close> is not among the sources.
  Spec: ``returns the layer immediately below the given one in its chain, or a sentinel
  meaning no predecessor when the layer is already the base''. \<open>None\<close> is the nil
  pointer.\<close>

definition getNextLayer :: "methodInfo \<Rightarrow> layer_ptr \<Rightarrow> layer_ptr option" where
  "getNextLayer methInf methLayer = nextLayer methInf methLayer"

text \<open>
  The three functions of the source. The first argument bounds the depth of nested
  layer invocations: each \<^verbatim>\<open>funcValue.Call(inVals)\<close> uses one unit, and the layer's
  function gets the entry points at the remaining depth.

  \<open>call\<close>: the receiver is a value, so the assignment to \<^verbatim>\<open>rc.callStack\<close> changes the
  copy that is handed to the layer and nothing else.
\<close>

fun call :: "nat \<Rightarrow> store \<Rightarrow> RecordCollection \<Rightarrow> layer_ptr \<Rightarrow> val list \<Rightarrow> error + val"
and Super :: "nat \<Rightarrow> store \<Rightarrow> RecordCollection \<Rightarrow> val list \<Rightarrow> error + val"
and Call :: "nat \<Rightarrow> store \<Rightarrow> RecordCollection \<Rightarrow> string \<Rightarrow> val list \<Rightarrow> error + val"
where
  "call 0 st rc methLayer args = Inl OutOfFuel"
| "call (Suc n) st rc methLayer args =
     (let rc' = rc\<lparr>callStack := methLayer # callStack rc\<rparr> in
      case layers st methLayer of
        None \<Rightarrow> Inl (Panic ''nil pointer dereference'')
      | Some ml \<Rightarrow>
          (case funcValue ml \<lparr>rcSuper = (\<lambda>r a. Super n st r a), rcCall = (\<lambda>r m a. Call n st r m a)\<rparr> rc' args of
             Inl e \<Rightarrow> Inl e
           | Inr retVal \<Rightarrow>
               if length retVal = 0 then Inr NilV
               else Inr (hd retVal)))"
| "Super n st rc args =
     (if length (callStack rc) = 0
      then Inl (LogAndPanic ''Empty call stack'' [(''model'', name (mi rc))])
      else
        let currentLayer = hd (callStack rc) in
        case layers st currentLayer of
          None \<Rightarrow> Inl (Panic ''nil pointer dereference'')
        | Some cl \<Rightarrow>
            (case methInfos st (methInfo cl) of
               None \<Rightarrow> Inl (Panic ''nil pointer dereference'')
             | Some methInf \<Rightarrow>
                 (case getNextLayer methInf currentLayer of
                    None \<Rightarrow> Inr NilV
                  | Some methLayer \<Rightarrow> call n st rc methLayer args)))"
| "Call n st rc methName args =
     (case methods (mi rc) methName of
        None \<Rightarrow> Inl (LogAndPanic ''Unknown method in model''
                       [(''method'', methName), (''model'', name (mi rc))])
      | Some ip \<Rightarrow>
          (case methInfos st ip of
             None \<Rightarrow> Inl (Panic ''nil pointer dereference'')
           | Some methInf \<Rightarrow> call n st rc (topLayer methInf) args))"

text \<open>The entry points a layer invoked at depth \<open>n\<close> can use, and the last three
  lines of \<open>call\<close> (nil for no returned value, else the first one) as functions of
  their own, to state results with.\<close>

definition entryPoints :: "nat \<Rightarrow> store \<Rightarrow> dispatcher" where
  "entryPoints n st = \<lparr>rcSuper = (\<lambda>r a. Super n st r a), rcCall = (\<lambda>r m a. Call n st r m a)\<rparr>"

definition firstResult :: "error + val list \<Rightarrow> error + val" where
  "firstResult r =
     (case r of
        Inl e \<Rightarrow> Inl e
      | Inr retVal \<Rightarrow> if length retVal = 0 then Inr NilV else Inr (hd retVal))"

text \<open>\<open>invoke n st l rc args\<close>: the function of the layer at \<open>l\<close> applied to the receiver
  \<open>rc\<close> as it is (no frame pushed) and to \<open>args\<close>, that is \<^verbatim>\<open>funcValue.Call(inVals)\<close>
  with \<^verbatim>\<open>inVals[0] = rc\<close>.\<close>

definition invoke :: "nat \<Rightarrow> store \<Rightarrow> methodLayer \<Rightarrow> RecordCollection \<Rightarrow> val list \<Rightarrow> error + val list" where
  "invoke n st ml rc args = funcValue ml (entryPoints n st) rc args"

subsection \<open>Registration of layers\<close>

text \<open>Modelled from the spec: the registration code is not among the sources. Spec:
  ``\<^verbatim>\<open>registerLayer(model, methodName, implementation, module)\<close> inserts a new top layer
  for that (model, method) pair, linking it above the current top (or creating a fresh
  single-layer chain if none exists)''. The module tag plays no part in dispatch and is
  left out. A method whose registry entry points at no \<^verbatim>\<open>methodInfo\<close> is given a fresh
  single-layer chain at that address.\<close>

definition registerLayer :: "store \<times> modelInfo \<Rightarrow> string \<Rightarrow> funcval \<Rightarrow> store \<times> modelInfo" where
  "registerLayer s methodName impl =
     (let st = fst s; m = snd s in
      case methods m methodName of
        None \<Rightarrow>
          (let ip = heapTop st; lp = Suc ip in
           (st\<lparr>layers := (layers st)(lp \<mapsto> \<lparr>methInfo = ip, funcValue = impl\<rparr>),
               methInfos := (methInfos st)(ip \<mapsto> \<lparr>topLayer = lp, nextLayer = Map.empty\<rparr>),
               heapTop := Suc lp\<rparr>,
            m\<lparr>methods := (methods m)(methodName \<mapsto> ip)\<rparr>))
      | Some ip \<Rightarrow>
          (let lp = heapTop st;
               methInf' = (case methInfos st ip of
                             None \<Rightarrow> \<lparr>topLayer = lp, nextLayer = Map.empty\<rparr>
                           | Some methInf \<Rightarrow>
                               methInf\<lparr>nextLayer := (nextLayer methInf)(lp \<mapsto> topLayer methInf),
                                       topLayer := lp\<rparr>) in
           (st\<lparr>layers := (layers st)(lp \<mapsto> \<lparr>methInfo = ip, funcValue = impl\<rparr>),
               methInfos := (methInfos st)(ip \<mapsto> methInf'),
               heapTop := Suc lp\<rparr>,
            m)))"

definition registerLayers :: "store \<times> modelInfo \<Rightarrow> string \<Rightarrow> funcval list \<Rightarrow> store \<times> modelInfo" where
  "registerLayers s methodName impls = foldl (\<lambda>s' impl. registerLayer s' methodName impl) s impls"

definition newStore :: store where
  "newStore = \<lparr>layers = Map.empty, methInfos = Map.empty, heapTop = 0\<rparr>"

definition newModel :: "string \<Rightarrow> modelInfo" where
  "newModel nm = \<lparr>name = nm, methods = Map.empty\<rparr>"

subsection \<open>A three-layer example\<close>

text \<open>A layer that calls \<^verbatim>\<open>rc.Super(args...)\<close> on the collection it received and returns
  its own tag in front of what the layers below returned; a layer that returns the depth
  of the call stack it was given; and a layer that returns nothing.\<close>

definition tagLayer :: "int \<Rightarrow> funcval" where
  "tagLayer k d rc args =
     (case rcSuper d rc args of
        Inl e \<Rightarrow> Inl e
      | Inr v \<Rightarrow> Inr [ListV (IntV k # (case v of ListV vs \<Rightarrow> vs | _ \<Rightarrow> []))])"

definition depthLayer :: funcval where
  "depthLayer d rc args = Inr [IntV (int (length (callStack rc))), StrV ''ignored'']"

definition voidLayer :: funcval where
  "voidLayer d rc args = Inr []"

text \<open>A layer that calls another method, \<^verbatim>\<open>rc.Call("Depth", args...)\<close>, on the collection
  it received and returns what it got.\<close>

definition probeLayer :: funcval where
  "probeLayer d rc args =
     (case rcCall d rc ''Depth'' args of
        Inl e \<Rightarrow> Inl e
      | Inr v \<Rightarrow> Inr [v])"

definition exDescribe :: "store \<times> modelInfo" where
  "exDescribe = registerLayers (newStore, newModel ''User'') ''Describe'' [tagLayer 1, tagLayer 2, tagLayer 3]"

definition exRegistry :: "store \<times> modelInfo" where
  "exRegistry =
     registerLayer (registerLayer (registerLayer exDescribe ''Depth'' depthLayer) ''Reset'' voidLayer)
       ''Probe'' probeLayer"

definition exStore :: store where
  "exStore = fst exRegistry"

definition exUsers :: RecordCollection where
  "exUsers = \<lparr>mi = snd exRegistry, callStack = []\<rparr>"

text \<open>The invariant of a chain of layers registered on a fresh method: the method's
  \<^verbatim>\<open>methodInfo\<close> is at \<open>b\<close>, the layer registered \<open>i\<close>-th is at \<open>b + 1 + i\<close> and is
  linked to the one registered before it, and the last one registered is the top.\<close>

definition chainInv :: "string \<Rightarrow> nat \<Rightarrow> funcval list \<Rightarrow> store \<times> modelInfo \<Rightarrow> bool" where
  "chainInv meth b fs s \<longleftrightarrow>
     methods (snd s) meth = Some b \<and>
     heapTop (fst s) = b + 1 + length fs \<and>
     (\<exists>methInf. methInfos (fst s) b = Some methInf \<and> topLayer methInf = b + length fs \<and>
        (\<forall>i<length fs. nextLayer methInf (b + 1 + i) = (if i = 0 then None else Some (b + i)))) \<and>
     (\<forall>i<length fs. layers (fst s) (b + 1 + i) = Some \<lparr>methInfo = b, funcValue = fs ! i\<rparr>)"

section \<open>Query building\<close>

text \<open>
  Modelled from the spec: the query builder (the field registry, the resolution of
  dotted paths, the planning of joins, the condition tree and the functions
  \<^verbatim>\<open>selectQuery\<close>, \<^verbatim>\<open>sqlWhereClause\<close>, \<^verbatim>\<open>Filter\<close>, \<^verbatim>\<open>SetCond\<close>, \<^verbatim>\<open>NewCondition\<close>,
  \<^verbatim>\<open>And\<close>, \<^verbatim>\<open>Or\<close>) is not among the sources; only its test
  \<^verbatim>\<open>t04_queries_test.go\<close> is. The definitions of this section follow sections 3, 4.1
  to 4.4 and 6 of the spec. Where the spec leaves the text of the SQL open, or says
  otherwise than the strings the test expects, the test decides; each such place is
  marked.
\<close>

subsection \<open>Registry of models and fields\<close>

text \<open>Modelled from the spec: ``a mapping from model name to field definitions (name,
  storage column, optional relation target model, optional alias name)''. \<open>fieldName\<close>
  is the name of the alias convention (\<^verbatim>\<open>BestPost\<close>), \<open>json\<close> the storage name
  (\<^verbatim>\<open>best_post_id\<close>).\<close>

record fieldInfo =
  fieldName :: string
  json :: string
  relatedModel :: "string option"

record modelDef =
  tableName :: string
  modelFields :: "fieldInfo list"

type_synonym registry = "(string \<times> modelDef) list"

text \<open>Modelled from the spec: the failures of section 4.1, ``unknown model, unknown
  field segment, or a non-relation field used as an intermediate segment'', and the
  empty path.\<close>

datatype queryError =
    UnknownModel string
  | UnknownField string string
  | NotARelation string string
  | EmptyPath

text \<open>Modelled from the spec: ``each segment either the storage name or an
  alias/display name of a field''.\<close>

definition getField :: "fieldInfo list \<Rightarrow> string \<Rightarrow> fieldInfo option" where
  "getField fs seg = find (\<lambda>f. fieldName f = seg \<or> json f = seg) fs"

subsection \<open>Field resolver\<close>

text \<open>Modelled from the spec: ``Join step: (source table alias, source column, target
  table, target alias, target column)''.\<close>

record joinStep =
  srcAlias :: string
  srcColumn :: string
  tgtTable :: string
  tgtAlias :: string
  tgtColumn :: string

definition sqlSep :: string where
  "sqlSep = ''__''"

text \<open>
  Modelled from the spec: section 4.1. The path is a list of segments; every segment but
  the last must be a relation field of the model reached so far; the result is the
  list of join steps and the final column with the alias that qualifies it.

  The alias of a joined table is the alias reached so far, the separator and the
  \<^emph>\<open>table name of the target model\<close>. The spec says ``the chain of relation field
  names''; the test expects \<^verbatim>\<open>user__profile__post\<close> for the path
  \<^verbatim>\<open>profile_id.best_post_id\<close> (or \<^verbatim>\<open>Profile.BestPost\<close>), which no name of the
  field \<^verbatim>\<open>best_post_id\<close> gives and the table of its target model does. The join
  column of the target is \<^verbatim>\<open>id\<close>, as in the expected strings.
\<close>

fun resolvePath :: "registry \<Rightarrow> string \<Rightarrow> string \<Rightarrow> string list \<Rightarrow>
    queryError + (joinStep list \<times> string \<times> string)" where
  "resolvePath reg mname alias [] = Inl EmptyPath"
| "resolvePath reg mname alias (seg # rest) =
     (case map_of reg mname of
        None \<Rightarrow> Inl (UnknownModel mname)
      | Some md \<Rightarrow>
          (case getField (modelFields md) seg of
             None \<Rightarrow> Inl (UnknownField mname seg)
           | Some f \<Rightarrow>
               if rest = [] then Inr ([], alias, json f)
               else
                 (case relatedModel f of
                    None \<Rightarrow> Inl (NotARelation mname seg)
                  | Some tm \<Rightarrow>
                      (case map_of reg tm of
                         None \<Rightarrow> Inl (UnknownModel tm)
                       | Some tmd \<Rightarrow>
                           (let alias' = alias @ sqlSep @ tableName tmd;
                                step = \<lparr>srcAlias = alias, srcColumn = json f,
                                        tgtTable = tableName tmd, tgtAlias = alias',
                                        tgtColumn = ''id''\<rparr>
                            in case resolvePath reg tm alias' rest of
                                 Inl e \<Rightarrow> Inl e
                               | Inr (steps, col) \<Rightarrow> Inr (step # steps, col))))))"

text \<open>Modelled from the spec: resolution starts at the target model's table, ``aliased as
  the model's own table name''; a list of paths resolves when each of them does.\<close>

definition resolve :: "registry \<Rightarrow> string \<Rightarrow> string list \<Rightarrow>
    queryError + (joinStep list \<times> string \<times> string)" where
  "resolve reg mname path =
     (case map_of reg mname of
        None \<Rightarrow> Inl (UnknownModel mname)
      | Some md \<Rightarrow> resolvePath reg mname (tableName md) path)"

fun resolveAll :: "registry \<Rightarrow> string \<Rightarrow> string list list \<Rightarrow>
    queryError + (joinStep list \<times> string \<times> string) list" where
  "resolveAll reg mname [] = Inr []"
| "resolveAll reg mname (p # ps) =
     (case resolve reg mname p of
        Inl e \<Rightarrow> Inl e
      | Inr r \<Rightarrow>
          (case resolveAll reg mname ps of
             Inl e \<Rightarrow> Inl e
           | Inr rs \<Rightarrow> Inr (r # rs)))"

text \<open>Modelled from the spec: ``a dotted path (segments separated by \<^verbatim>\<open>.\<close>)'', as callers
  write it, split at the dots.\<close>

fun splitPath :: "string \<Rightarrow> string list" where
  "splitPath [] = [[]]"
| "splitPath (c # cs) =
     (if c = CHR ''.'' then [] # splitPath cs
      else (case splitPath cs of
              [] \<Rightarrow> [[c]]
            | w # ws \<Rightarrow> (c # w) # ws))"

subsection \<open>Join planner\<close>

text \<open>Modelled from the spec: section 4.2. The alias is the key: ``joins are emitted in
  first-seen order; repeated prefixes contribute no additional join''.\<close>

definition addJoin :: "joinStep list \<Rightarrow> joinStep \<Rightarrow> joinStep list" where
  "addJoin seen j = (if tgtAlias j \<in> set (map tgtAlias seen) then seen else seen @ [j])"

definition planJoins :: "joinStep list list \<Rightarrow> joinStep list" where
  "planJoins stepss = foldl addJoin [] (concat stepss)"

subsection \<open>Condition tree\<close>

text \<open>Modelled from the spec: section 4.3, ``operators include at least: equality,
  inequality, ordering comparisons, pattern match, set membership, null checks''. The
  test fixes the text of \<^verbatim>\<open>=\<close>, \<^verbatim>\<open>>=\<close>, \<^verbatim>\<open><\<close> and \<^verbatim>\<open>like\<close>; the other
  comparisons and set membership are written the same way.\<close>

datatype operator =
    OpEq | OpNeq | OpGt | OpGe | OpLt | OpLe | OpLike | OpIn | OpIsNull | OpIsNotNull

text \<open>Modelled from the spec: a null check compares with nothing, so its text has no
  placeholder; by the invariant of section 4.3 (``an ordered list of bound values whose
  order matches placeholder order exactly'') the value that the builder call carries
  for it is not bound.\<close>

fun takesValue :: "operator \<Rightarrow> bool" where
  "takesValue OpIsNull = False"
| "takesValue OpIsNotNull = False"
| "takesValue op = True"

definition boundValues :: "operator \<Rightarrow> val \<Rightarrow> val list" where
  "boundValues op v = (if takesValue op then [v] else [])"

text \<open>Modelled from the spec: ``each leaf predicate = (field path, operator, value);
  internal nodes combine children with AND or OR, optionally representing a
  parenthesized sub-group''. The flag of a node says whether it is joined to what
  precedes it by OR (else by AND).\<close>

datatype cnode =
    Pred bool "string list" operator val
  | Sub bool "cnode list"

type_synonym Condition = "cnode list"

text \<open>Modelled from the spec: the fluent builder of section 4.3, with the calls the test
  makes (\<^verbatim>\<open>NewCondition().And(...).Or(...)\<close>); \<open>condAndCond\<close> takes a whole tree as one
  operand.\<close>

definition NewCondition :: Condition where
  "NewCondition = []"

definition condAnd :: "Condition \<Rightarrow> string \<Rightarrow> operator \<Rightarrow> val \<Rightarrow> Condition" where
  "condAnd c field op v = c @ [Pred False (splitPath field) op v]"

definition condOr :: "Condition \<Rightarrow> string \<Rightarrow> operator \<Rightarrow> val \<Rightarrow> Condition" where
  "condOr c field op v = c @ [Pred True (splitPath field) op v]"

definition condAndCond :: "Condition \<Rightarrow> Condition \<Rightarrow> Condition" where
  "condAndCond c sub = c @ [Sub False sub]"

text \<open>The paths a tree refers to, from left to right.\<close>

fun nodePaths :: "cnode \<Rightarrow> string list list" where
  "nodePaths (Pred isOr path op v) = [path]"
| "nodePaths (Sub isOr cs) = concat (map nodePaths cs)"

subsection \<open>Rendering\<close>

text \<open>Modelled from the spec: ``double-quoted identifiers''; ``every selected/filtered
  column is always table-qualified by its resolved alias''. In the expected strings of
  the test the alias stands between quotes and the column follows a dot, bare.\<close>

definition quoteTableName :: "string \<Rightarrow> string" where
  "quoteTableName s = [CHR 0x22] @ s @ [CHR 0x22]"

definition columnSQL :: "string \<Rightarrow> string \<Rightarrow> string" where
  "columnSQL alias col = quoteTableName alias @ ''.'' @ col"

text \<open>Modelled from the spec: the text of an operator around its placeholder \<open>ph\<close>
  (``wrapping is the operator's responsibility at render time''). The wildcard markers of
  \<^verbatim>\<open>like\<close> belong to the operator's text (the test expects \<^verbatim>\<open>LIKE %?%\<close>).\<close>

fun operatorSQL :: "operator \<Rightarrow> string \<Rightarrow> string" where
  "operatorSQL OpEq ph = ''= '' @ ph"
| "operatorSQL OpNeq ph = ''!= '' @ ph"
| "operatorSQL OpGt ph = ''> '' @ ph"
| "operatorSQL OpGe ph = ''>= '' @ ph"
| "operatorSQL OpLt ph = ''< '' @ ph"
| "operatorSQL OpLe ph = ''<= '' @ ph"
| "operatorSQL OpLike ph = ''LIKE %'' @ ph @ ''%''"
| "operatorSQL OpIn ph = ''IN ('' @ ph @ '')''"
| "operatorSQL OpIsNull ph = ''IS NULL''"
| "operatorSQL OpIsNotNull ph = ''IS NOT NULL''"

text \<open>The first clause of a list has no connector; the others start with theirs.\<close>

definition connector :: "bool \<Rightarrow> bool \<Rightarrow> string" where
  "connector first isOr = (if first then [] else if isOr then ''OR '' else ''AND '')"

text \<open>
  Modelled from the spec: section 4.3, ``evaluates to a SQL fragment with positional
  placeholders plus an ordered list of bound values''.
  The text and the bound values of a node and of a list of nodes. \<open>ph\<close> gives what is
  written where a value is bound: \<open>\<lambda>v. ''?''\<close> for the statement the builder emits;
  another function writes the values in place, which is what the statement means once
  its arguments are bound. Every clause ends with one space, and a sub-group is
  written between parentheses, as the test expects.
\<close>

fun nodeSQL :: "registry \<Rightarrow> string \<Rightarrow> (val \<Rightarrow> string) \<Rightarrow> bool \<Rightarrow> cnode \<Rightarrow>
    queryError + (string \<times> val list)"
and nodesSQL :: "registry \<Rightarrow> string \<Rightarrow> (val \<Rightarrow> string) \<Rightarrow> bool \<Rightarrow> cnode list \<Rightarrow>
    queryError + (string \<times> val list)" where
  "nodeSQL reg mname ph first (Pred isOr path op v) =
     (case resolve reg mname path of
        Inl e \<Rightarrow> Inl e
      | Inr (steps, alias, col) \<Rightarrow>
          Inr (connector first isOr @ columnSQL alias col @ '' '' @ operatorSQL op (ph v) @ '' '',
               boundValues op v))"
| "nodeSQL reg mname ph first (Sub isOr cs) =
     (case nodesSQL reg mname ph True cs of
        Inl e \<Rightarrow> Inl e
      | Inr (sql, args) \<Rightarrow> Inr (connector first isOr @ ''('' @ sql @ '') '', args))"
| "nodesSQL reg mname ph first [] = Inr ([], [])"
| "nodesSQL reg mname ph first (c # cs) =
     (case nodeSQL reg mname ph first c of
        Inl e \<Rightarrow> Inl e
      | Inr (sql1, args1) \<Rightarrow>
          (case nodesSQL reg mname ph False cs of
             Inl e \<Rightarrow> Inl e
           | Inr (sql2, args2) \<Rightarrow> Inr (sql1 @ sql2, args1 @ args2)))"

subsection \<open>Query builder\<close>

text \<open>Modelled from the spec: the builder ``combines a target model, a Condition Tree and a
  set of selected field paths''. \<open>Pool\<close> is the builder of a model with no condition;
  \<open>Filter\<close> adds a predicate to the conjunction, as lines 28, 35 and 41 of the test use
  it.\<close>

record Query =
  qModel :: string
  cond :: Condition

definition Pool :: "string \<Rightarrow> Query" where
  "Pool mname = \<lparr>qModel = mname, cond = NewCondition\<rparr>"

definition Filter :: "Query \<Rightarrow> string \<Rightarrow> operator \<Rightarrow> val \<Rightarrow> Query" where
  "Filter q field op v = q\<lparr>cond := condAnd (cond q) field op v\<rparr>"

text \<open>Modelled from the spec: ``combined by AND with the pre-existing path-based
  conditions if both are merged into one builder''. \<^verbatim>\<open>SetCond\<close> merges: line 50 of the
  test expects the conditions the builder already holds, then \<^verbatim>\<open>AND\<close> and the new
  condition between parentheses.\<close>

definition SetCond :: "Query \<Rightarrow> Condition \<Rightarrow> Query" where
  "SetCond q c = q\<lparr>cond := condAndCond (cond q) c\<rparr>"

text \<open>The placeholder of the emitted statements.\<close>

definition placeholder :: "val \<Rightarrow> string" where
  "placeholder v = ''?''"

text \<open>Modelled from the spec: section 4.4. ``Empty Condition Tree: sqlWhereClause returns
  an empty string and no args''; else the fragment starts with the keyword.\<close>

definition whereClauseWith :: "(val \<Rightarrow> string) \<Rightarrow> registry \<Rightarrow> Query \<Rightarrow> queryError + (string \<times> val list)" where
  "whereClauseWith ph reg q =
     (case nodesSQL reg (qModel q) ph True (cond q) of
        Inl e \<Rightarrow> Inl e
      | Inr (sql, args) \<Rightarrow> if sql = [] then Inr ([], []) else Inr (''WHERE '' @ sql, args))"

definition sqlWhereClause :: "registry \<Rightarrow> Query \<Rightarrow> queryError + (string \<times> val list)" where
  "sqlWhereClause reg q = whereClauseWith placeholder reg q"

text \<open>Modelled from the spec: ``explicit \<^verbatim>\<open>LEFT JOIN ... ON ...\<close> clauses, and a single
  trailing space after each clause segment''. The layout is that of the expected
  strings: the table and its alias, both quoted, the columns separated by a comma and a
  space.\<close>

fun joinWith :: "string \<Rightarrow> string list \<Rightarrow> string" where
  "joinWith sep [] = []"
| "joinWith sep [x] = x"
| "joinWith sep (x # y # ys) = x @ sep @ joinWith sep (y # ys)"

definition joinSQL :: "joinStep \<Rightarrow> string" where
  "joinSQL j =
     ''LEFT JOIN '' @ quoteTableName (tgtTable j) @ '' '' @ quoteTableName (tgtAlias j) @ '' ON '' @
     columnSQL (srcAlias j) (srcColumn j) @ ''='' @ columnSQL (tgtAlias j) (tgtColumn j) @ '' ''"

definition tablesSQL :: "modelDef \<Rightarrow> joinStep list \<Rightarrow> string" where
  "tablesSQL md joins =
     quoteTableName (tableName md) @ '' '' @ quoteTableName (tableName md) @ '' '' @
     concat (map joinSQL joins)"

definition fieldsSQL :: "(joinStep list \<times> string \<times> string) list \<Rightarrow> string" where
  "fieldsSQL rs = joinWith '', '' (map (\<lambda>(steps, alias, col). columnSQL alias col) rs)"

text \<open>Modelled from the spec: section 4.4. The joins are those of the selected fields,
  then those of the condition tree, each alias once.\<close>

definition selectQueryWith :: "(val \<Rightarrow> string) \<Rightarrow> registry \<Rightarrow> Query \<Rightarrow> string list \<Rightarrow>
    queryError + (string \<times> val list)" where
  "selectQueryWith ph reg q fieldPaths =
     (case map_of reg (qModel q) of
        None \<Rightarrow> Inl (UnknownModel (qModel q))
      | Some md \<Rightarrow>
          (case resolveAll reg (qModel q) (map splitPath fieldPaths) of
             Inl e \<Rightarrow> Inl e
           | Inr frs \<Rightarrow>
               (case resolveAll reg (qModel q) (concat (map nodePaths (cond q))) of
                  Inl e \<Rightarrow> Inl e
                | Inr crs \<Rightarrow>
                    (case whereClauseWith ph reg q of
                       Inl e \<Rightarrow> Inl e
                     | Inr (whereSQL, args) \<Rightarrow>
                         Inr (''SELECT '' @ fieldsSQL frs @ '' FROM '' @
                              tablesSQL md (planJoins (map fst (frs @ crs))) @ '' '' @ whereSQL,
                              args)))))"

definition selectQuery :: "registry \<Rightarrow> Query \<Rightarrow> string list \<Rightarrow> queryError + (string \<times> val list)" where
  "selectQuery reg q fieldPaths = selectQueryWith placeholder reg q fieldPaths"

subsection \<open>The models and the expected strings of the test\<close>

text \<open>The test module that declares the models is not among the sources. The three
  models below are what the paths and the expected strings of
  \<^verbatim>\<open>t04_queries_test.go\<close> show of them.\<close>

definition testRegistry :: registry where
  "testRegistry =
     [(''User'', \<lparr>tableName = ''user'', modelFields =
         [\<lparr>fieldName = ''UserName'', json = ''user_name'', relatedModel = None\<rparr>,
          \<lparr>fieldName = ''Profile'', json = ''profile_id'', relatedModel = Some ''Profile''\<rparr>]\<rparr>),
      (''Profile'', \<lparr>tableName = ''profile'', modelFields =
         [\<lparr>fieldName = ''Age'', json = ''age'', relatedModel = None\<rparr>,
          \<lparr>fieldName = ''Money'', json = ''money'', relatedModel = None\<rparr>,
          \<lparr>fieldName = ''BestPost'', json = ''best_post_id'', relatedModel = Some ''Post''\<rparr>]\<rparr>),
      (''Post'', \<lparr>tableName = ''post'', modelFields =
         [\<lparr>fieldName = ''Title'', json = ''title'', relatedModel = None\<rparr>]\<rparr>)]"

text \<open>Lines 31 and 38, line 43, line 50 and line 55 of the test.\<close>

definition expectedSelect :: string where
  \<open>expectedSelect = ''SELECT "user".user_name, "user__profile__post".title FROM "user" "user" LEFT JOIN "profile" "user__profile" ON "user".profile_id="user__profile".id LEFT JOIN "post" "user__profile__post" ON "user__profile".best_post_id="user__profile__post".id  WHERE "user__profile__post".title = ? ''\<close>

definition expectedWhere2 :: string where
  \<open>expectedWhere2 = ''WHERE "user__profile__post".title = ? AND "user__profile".age >= ? ''\<close>

definition expectedWhere3 :: string where
  \<open>expectedWhere3 = ''WHERE "user__profile__post".title = ? AND "user__profile".age >= ? AND ("user".user_name LIKE %?% OR "user__profile".money < ? ) ''\<close>

definition expectedSelect3 :: string where
  \<open>expectedSelect3 = ''SELECT "user".user_name, "user__profile__post".title FROM "user" "user" LEFT JOIN "profile" "user__profile" ON "user".profile_id="user__profile".id LEFT JOIN "post" "user__profile__post" ON "user__profile".best_post_id="user__profile__post".id  WHERE "user__profile__post".title = ? AND "user__profile".age >= ? AND ("user".user_name LIKE %?% OR "user__profile".money < ? ) ''\<close>

text \<open>The builders of the test: lines 27 and 28, lines 34 and 35, line 41, lines 47
  and 48.\<close>

definition rsStorage :: Query where
  "rsStorage = Filter (Pool ''User'') ''profile_id.best_post_id.title'' OpEq (StrV ''foo'')"

definition rsAlias :: Query where
  "rsAlias = Filter (Pool ''User'') ''Profile.BestPost.Title'' OpEq (StrV ''foo'')"

definition rsAge :: Query where
  "rsAge = Filter rsAlias ''Profile.Age'' OpGe (IntV 12)"

definition c2 :: Condition where
  "c2 = condOr (condAnd NewCondition ''user_name'' OpLike (StrV ''jane''))
          ''Profile.Money'' OpLt (FloatV (123456 / 100))"

definition rsMerged :: Query where
  "rsMerged = SetCond rsAge c2"

subsection \<open>Respelling paths, registries with unambiguous names\<close>

text \<open>\<open>respell pick\<close> rewrites every segment of a path as the name \<open>pick\<close> chooses for
  the field the segment names: \<open>json\<close> gives the storage spelling, \<open>fieldName\<close> the
  alias spelling, and a choice that depends on the field a mixed one.\<close>

fun respell :: "(fieldInfo \<Rightarrow> string) \<Rightarrow> registry \<Rightarrow> string \<Rightarrow> string list \<Rightarrow> string list" where
  "respell pick reg mname [] = []"
| "respell pick reg mname (seg # rest) =
     (case map_of reg mname of
        None \<Rightarrow> seg # rest
      | Some md \<Rightarrow>
          (case getField (modelFields md) seg of
             None \<Rightarrow> seg # rest
           | Some f \<Rightarrow>
               pick f # (case relatedModel f of
                           None \<Rightarrow> rest
                         | Some tm \<Rightarrow> respell pick reg tm rest)))"

fun respellNode :: "(fieldInfo \<Rightarrow> string) \<Rightarrow> registry \<Rightarrow> string \<Rightarrow> cnode \<Rightarrow> cnode" where
  "respellNode pick reg mname (Pred isOr path op v) = Pred isOr (respell pick reg mname path) op v"
| "respellNode pick reg mname (Sub isOr cs) = Sub isOr (map (respellNode pick reg mname) cs)"

definition respellQuery :: "(fieldInfo \<Rightarrow> string) \<Rightarrow> registry \<Rightarrow> Query \<Rightarrow> Query" where
  "respellQuery pick reg q = q\<lparr>cond := map (respellNode pick reg (qModel q)) (cond q)\<rparr>"

text \<open>No name, of either convention, is shared by two fields of a model.\<close>

fun namesUnique :: "fieldInfo list \<Rightarrow> bool" where
  "namesUnique [] = True"
| "namesUnique (f # fs) =
     (list_all (\<lambda>g. fieldName g \<noteq> fieldName f \<and> fieldName g \<noteq> json f \<and>
                     json g \<noteq> fieldName f \<and> json g \<noteq> json f) fs \<and>
      namesUnique fs)"

definition wfRegistry :: "registry \<Rightarrow> bool" where
  "wfRegistry reg = list_all (\<lambda>e. namesUnique (modelFields (snd e))) reg"

text \<open>A choice between the two names of each field; \<open>mixedPick\<close> spells relation fields
  the storage way and the others the alias way.\<close>

definition picksName :: "(fieldInfo \<Rightarrow> string) \<Rightarrow> bool" where
  "picksName pick = (\<forall>f. pick f = json f \<or> pick f = fieldName f)"

definition mixedPick :: "fieldInfo \<Rightarrow> string" where
  "mixedPick f = (if relatedModel f = None then fieldName f else json f)"

subsection \<open>Aliases, and what a statement means once its arguments are bound\<close>









text \<open>No identifier of the registry contains the placeholder character.\<close>

definition noPlaceholder :: "string \<Rightarrow> bool" where
  "noPlaceholder s = (CHR ''?'' \<notin> set s)"









section \<open>Properties of the dispatcher\<close>

declare call.simps [simp del] Super.simps [simp del] Call.simps [simp del]

lemma entryPoints_fold:
  "\<lparr>rcSuper = (\<lambda>r a. Super n st r a), rcCall = (\<lambda>r m a. Call n st r m a)\<rparr> = entryPoints n st"
  by (simp add: entryPoints_def)

lemma call_Suc:
  "call (Suc n) st rc l args =
     (case layers st l of
        None \<Rightarrow> Inl (Panic ''nil pointer dereference'')
      | Some ml \<Rightarrow> firstResult (invoke n st ml (rc\<lparr>callStack := l # callStack rc\<rparr>) args))"
  by (simp add: call.simps(2) firstResult_def invoke_def entryPoints_def Let_def split: option.splits sum.splits)

lemma Super_Nil:
  "callStack rc = [] \<Longrightarrow> Super n st rc args = Inl (LogAndPanic ''Empty call stack'' [(''model'', name (mi rc))])"
  by (simp add: Super.simps)

lemma Super_Cons:
  "callStack rc = cur # rest \<Longrightarrow> layers st cur = Some cl \<Longrightarrow> methInfos st (methInfo cl) = Some methInf \<Longrightarrow>
   Super n st rc args = (case getNextLayer methInf cur of None \<Rightarrow> Inr NilV | Some l \<Rightarrow> call n st rc l args)"
  by (simp add: Super.simps)

lemma Super_at:
  "methInfos st ip = Some methInf \<Longrightarrow> callStack rc = cur # rest \<Longrightarrow> layers st cur = Some cl \<Longrightarrow>
   methInfo cl = ip \<Longrightarrow>
   Super n st rc args = (case getNextLayer methInf cur of None \<Rightarrow> Inr NilV | Some l \<Rightarrow> call n st rc l args)"
  by (simp add: Super.simps)

lemma Call_known:
  "methods (mi rc) m = Some ip \<Longrightarrow> methInfos st ip = Some methInf \<Longrightarrow>
   Call n st rc m args = call n st rc (topLayer methInf) args"
  by (simp add: Call.simps)


lemma chainInv_first:
  "methods m0 meth = None \<Longrightarrow> chainInv meth (heapTop st0) [f] (registerLayer (st0, m0) meth f)"
  by (simp add: chainInv_def registerLayer_def Let_def)

lemma chainInv_next:
  assumes "chainInv meth b fs s" "fs \<noteq> []"
  shows "chainInv meth b (fs @ [f]) (registerLayer s meth f)"
proof -
  obtain st m where s: "s = (st, m)" by (cases s)
  from assms(1) s obtain methInf where
    m: "methods m meth = Some b" and
    h: "heapTop st = b + 1 + length fs" and
    i: "methInfos st b = Some methInf" and
    t: "topLayer methInf = b + length fs" and
    nx: "\<forall>i<length fs. nextLayer methInf (b + 1 + i) = (if i = 0 then None else Some (b + i))" and
    ly: "\<forall>i<length fs. layers st (b + 1 + i) = Some \<lparr>methInfo = b, funcValue = fs ! i\<rparr>"
    by (auto simp: chainInv_def)
  have len: "0 < length fs" using assms(2) by simp
  show ?thesis
    unfolding chainInv_def s registerLayer_def Let_def
    using m h i t nx ly len
    by (auto simp: nth_append less_Suc_eq)
qed

lemma chainInv_registerLayers:
  "methods m0 meth = None \<Longrightarrow> fs \<noteq> [] \<Longrightarrow>
   chainInv meth (heapTop st0) fs (registerLayers (st0, m0) meth fs)"
proof (induction fs rule: rev_induct)
  case Nil
  then show ?case by simp
next
  case (snoc f fs)
  show ?case
  proof (cases "fs = []")
    case True
    then show ?thesis using snoc.prems(1) by (simp add: registerLayers_def chainInv_first)
  next
    case False
    then have "chainInv meth (heapTop st0) fs (registerLayers (st0, m0) meth fs)"
      using snoc by simp
    from chainInv_next [OF this False, of f] show ?thesis
      by (simp add: registerLayers_def)
  qed
qed


lemma chainInvD:
  assumes "chainInv meth b fs (st, m)"
  shows "\<exists>methInf.
    methods m meth = Some b \<and>
    methInfos st b = Some methInf \<and>
    topLayer methInf = b + length fs \<and>
    (\<forall>i<length fs. nextLayer methInf (b + 1 + i) = (if i = 0 then None else Some (b + i))) \<and>
    (\<forall>i<length fs. layers st (b + 1 + i) = Some \<lparr>methInfo = b, funcValue = fs ! i\<rparr>)"
  using assms unfolding chainInv_def by auto

lemma Super_base:
  assumes "chainInv meth b fs (st, m)" "fs \<noteq> []" "callStack rc = (b + 1) # rest"
  shows "Super n st rc args = Inr NilV"
proof -
  from chainInvD [OF assms(1)] obtain methInf where
    m: "methods m meth = Some b" and
    i: "methInfos st b = Some methInf" and
    t: "topLayer methInf = b + length fs" and
    nx': "\<forall>i<length fs. nextLayer methInf (b + 1 + i) = (if i = 0 then None else Some (b + i))" and
    ly': "\<forall>i<length fs. layers st (b + 1 + i) = Some \<lparr>methInfo = b, funcValue = fs ! i\<rparr>"
    by blast
  note nx = nx' [rule_format] and ly = ly' [rule_format]
  have len: "0 < length fs" using assms(2) by simp
  show ?thesis
    using Super_Cons [of rc "b + 1" rest st _ methInf n args] assms(3) i nx [OF len] ly [OF len]
    by (simp add: getNextLayer_def)
qed

lemma Super_step:
  assumes "chainInv meth b fs (st, m)" "Suc j < length fs" "callStack rc = (b + 2 + j) # rest"
  shows "Super n st rc args = call n st rc (b + 1 + j) args"
    and "layers st (b + 1 + j) = Some \<lparr>methInfo = b, funcValue = fs ! j\<rparr>"
proof -
  from chainInvD [OF assms(1)] obtain methInf where
    m: "methods m meth = Some b" and
    i: "methInfos st b = Some methInf" and
    t: "topLayer methInf = b + length fs" and
    nx': "\<forall>i<length fs. nextLayer methInf (b + 1 + i) = (if i = 0 then None else Some (b + i))" and
    ly': "\<forall>i<length fs. layers st (b + 1 + i) = Some \<lparr>methInfo = b, funcValue = fs ! i\<rparr>"
    by blast
  note nx = nx' [rule_format] and ly = ly' [rule_format]
  have j: "j < length fs" using assms(2) by simp
  show "Super n st rc args = call n st rc (b + 1 + j) args"
    using Super_Cons [of rc "b + 2 + j" rest st _ methInf n args] assms(3) i
      nx [OF assms(2)] ly [OF assms(2)]
    by (simp add: getNextLayer_def)
  show "layers st (b + 1 + j) = Some \<lparr>methInfo = b, funcValue = fs ! j\<rparr>" by (rule ly [OF j])
qed

lemma Call_top:
  assumes "chainInv meth b fs (st, m)" "fs \<noteq> []" "mi rc = m"
  shows "Call n st rc meth args = call n st rc (b + length fs) args"
    and "layers st (b + length fs) = Some \<lparr>methInfo = b, funcValue = last fs\<rparr>"
proof -
  have len: "length fs - 1 < length fs" using assms(2) by simp
  from chainInvD [OF assms(1)] obtain methInf where
    m: "methods m meth = Some b" and
    i: "methInfos st b = Some methInf" and
    t: "topLayer methInf = b + length fs" and
    nx': "\<forall>i<length fs. nextLayer methInf (b + 1 + i) = (if i = 0 then None else Some (b + i))" and
    ly': "\<forall>i<length fs. layers st (b + 1 + i) = Some \<lparr>methInfo = b, funcValue = fs ! i\<rparr>"
    by blast
  note nx = nx' [rule_format] and ly = ly' [rule_format]
  show "Call n st rc meth args = call n st rc (b + length fs) args"
    using Call_known [of rc meth b st methInf n args] m i t assms(3) by simp
  have eq: "b + 1 + (length fs - 1) = b + length fs" using assms(2) by (cases fs) auto
  from ly [OF len] show "layers st (b + length fs) = Some \<lparr>methInfo = b, funcValue = last fs\<rparr>"
    using assms(2) unfolding eq by (simp add: last_conv_nth)
qed

lemma tagLayers_call:
  assumes inv: "chainInv meth b (map tagLayer ks) (st, m)"
  shows "j < length ks \<Longrightarrow>
         call (Suc j) st rc (b + 1 + j) args = Inr (ListV (map IntV (rev (take (Suc j) ks))))"
proof (induction j arbitrary: rc)
  case 0
  then have ne: "map tagLayer ks \<noteq> []" by auto
  from 0 have "0 < length (map tagLayer ks)" by simp
  with chainInvD [OF inv] have ly: "layers st (b + 1 + 0) = Some \<lparr>methInfo = b, funcValue = map tagLayer ks ! 0\<rparr>"
    by blast
  have sup: "Super 0 st (rc\<lparr>callStack := (b + 1) # callStack rc\<rparr>) args = Inr NilV"
    by (rule Super_base [OF inv ne]) simp
  show ?case
    using ly sup 0
    by (simp add: call_Suc invoke_def entryPoints_def tagLayer_def firstResult_def take_Suc_conv_app_nth)
next
  case (Suc j)
  then have lt: "Suc j < length (map tagLayer ks)" by simp
  from chainInvD [OF inv] lt have ly: "layers st (b + 1 + Suc j) = Some \<lparr>methInfo = b, funcValue = map tagLayer ks ! Suc j\<rparr>"
    by blast
  let ?rc = "rc\<lparr>callStack := (b + 2 + j) # callStack rc\<rparr>"
  have "Super (Suc j) st ?rc args = call (Suc j) st ?rc (b + 1 + j) args"
    by (rule Super_step(1) [OF inv lt]) simp
  also have "\<dots> = Inr (ListV (map IntV (rev (take (Suc j) ks))))"
    using Suc by simp
  finally have sup: "Super (Suc j) st ?rc args = Inr (ListV (map IntV (rev (take (Suc j) ks))))" .
  show ?case
    using ly sup Suc.prems
    by (simp add: call_Suc [of "Suc j"] invoke_def entryPoints_def tagLayer_def firstResult_def
        take_Suc_conv_app_nth [of "Suc j"])
qed

text \<open>
  Claim C8. First conjunct: with a non-empty call stack, \<open>Super\<close> resolves the layer
  below the innermost frame's layer and invokes it with that layer pushed in front of
  the current stack. Second conjunct: after the layers \<open>fs\<close> have been registered in
  this order on a fresh method, \<open>Call\<close> reaches the layer registered last, \<open>Super\<close> on
  the collection handed to the layer registered \<open>j + 1\<close>-th reaches the layer
  registered \<open>j\<close>-th, and \<open>Super\<close> in the layer registered first returns nil. Third
  conjunct: when every layer calls \<open>Super\<close> once on the collection it received and
  puts its tag in front of the answer, one \<open>Call\<close> returns the tags from the last
  registered layer down to the first, given one unit of depth per layer.
\<close>

theorem Super_walks_chain:
  "(callStack rc = cur # rest \<and> layers st cur = Some cl \<and> methInfos st (methInfo cl) = Some methInf \<and>
    getNextLayer methInf cur = Some nxt \<and> layers st nxt = Some ml \<longrightarrow>
      Super (Suc n) st rc args = firstResult (invoke n st ml (rc\<lparr>callStack := nxt # cur # rest\<rparr>) args))
   \<and>
   (methods mI meth = None \<and> fs \<noteq> [] \<and> registerLayers (stI, mI) meth fs = (stR, mR) \<longrightarrow>
      (mi rcR = mR \<longrightarrow>
         Call (Suc n) stR rcR meth args =
           firstResult (last fs (entryPoints n stR)
                          (rcR\<lparr>callStack := (heapTop stI + length fs) # callStack rcR\<rparr>) args)) \<and>
      (Suc j < length fs \<and> callStack rcR = (heapTop stI + 2 + j) # restR \<longrightarrow>
         Super (Suc n) stR rcR args =
           firstResult ((fs ! j) (entryPoints n stR)
                          (rcR\<lparr>callStack := (heapTop stI + 1 + j) # (heapTop stI + 2 + j) # restR\<rparr>) args)) \<and>
      (callStack rcR = (heapTop stI + 1) # restR \<longrightarrow> Super n stR rcR args = Inr NilV))
   \<and>
   (methods mI meth = None \<and> ks \<noteq> [] \<and> registerLayers (stI, mI) meth (map tagLayer ks) = (stR, mR) \<and>
    mi rcR = mR \<longrightarrow>
      Call (length ks) stR rcR meth args = Inr (ListV (map IntV (rev ks))))"
proof (intro conjI impI; (elim conjE)?)
  assume "callStack rc = cur # rest" "layers st cur = Some cl" "methInfos st (methInfo cl) = Some methInf"
    "getNextLayer methInf cur = Some nxt" "layers st nxt = Some ml"
  then show "Super (Suc n) st rc args = firstResult (invoke n st ml (rc\<lparr>callStack := nxt # cur # rest\<rparr>) args)"
    using Super_Cons [of rc cur rest st cl methInf "Suc n" args] by (simp add: call_Suc)
next
  assume a: "methods mI meth = None" "fs \<noteq> []" "registerLayers (stI, mI) meth fs = (stR, mR)"
  then have inv: "chainInv meth (heapTop stI) fs (stR, mR)"
    using chainInv_registerLayers [of mI meth fs stI] by simp
  {
    assume "mi rcR = mR"
    from Call_top [OF inv a(2) this]
    show "Call (Suc n) stR rcR meth args =
           firstResult (last fs (entryPoints n stR)
                          (rcR\<lparr>callStack := (heapTop stI + length fs) # callStack rcR\<rparr>) args)"
      by (simp add: call_Suc invoke_def)
  }
  {
    assume "Suc j < length fs" "callStack rcR = (heapTop stI + 2 + j) # restR"
    from Super_step [OF inv this] this(2)
    show "Super (Suc n) stR rcR args =
           firstResult ((fs ! j) (entryPoints n stR)
                          (rcR\<lparr>callStack := (heapTop stI + 1 + j) # (heapTop stI + 2 + j) # restR\<rparr>) args)"
      by (simp add: call_Suc invoke_def)
  }
  {
    assume "callStack rcR = (heapTop stI + 1) # restR"
    from Super_base [OF inv a(2) this]
    show "Super n stR rcR args = Inr NilV" .
  }
next
  assume a: "methods mI meth = None" "ks \<noteq> []" "registerLayers (stI, mI) meth (map tagLayer ks) = (stR, mR)"
    "mi rcR = mR"
  then have ne: "map tagLayer ks \<noteq> []" by simp
  have inv: "chainInv meth (heapTop stI) (map tagLayer ks) (stR, mR)"
    using chainInv_registerLayers [OF a(1) ne, of stI] a(3) by simp
  obtain j where j: "length ks = Suc j" using a(2) by (cases ks) auto
  have "Call (Suc j) stR rcR meth args = call (Suc j) stR rcR (heapTop stI + 1 + j) args"
    using Call_top(1) [OF inv ne a(4), of "Suc j" args] j by simp
  also have "\<dots> = Inr (ListV (map IntV (rev (take (Suc j) ks))))"
    using tagLayers_call [OF inv, of j rcR args] j by simp
  finally show "Call (length ks) stR rcR meth args = Inr (ListV (map IntV (rev ks)))"
    using j by simp
qed


lemma exRegistry_methods:
  "methods (mi exUsers) ''Describe'' = Some 0"
  "methods (mi exUsers) ''Depth'' = Some 4"
  "methods (mi exUsers) ''Reset'' = Some 6"
  "methods (mi exUsers) ''Probe'' = Some 8"
  "methods (mi exUsers) ''Rename'' = None"
  "name (mi exUsers) = ''User''"
  "callStack exUsers = []"
  by (simp_all add: exUsers_def exRegistry_def exDescribe_def registerLayers_def registerLayer_def newStore_def
      newModel_def Let_def)

lemma exStore_methInfos:
  "map_option topLayer (methInfos exStore 0) = Some 3"
  "map_option (\<lambda>i. map (nextLayer i) [1, 2, 3]) (methInfos exStore 0) = Some [None, Some 1, Some 2]"
  "methInfos exStore 4 = Some \<lparr>topLayer = 5, nextLayer = Map.empty\<rparr>"
  "methInfos exStore 6 = Some \<lparr>topLayer = 7, nextLayer = Map.empty\<rparr>"
  "methInfos exStore 8 = Some \<lparr>topLayer = 9, nextLayer = Map.empty\<rparr>"
  by (simp_all add: exStore_def exRegistry_def exDescribe_def registerLayers_def registerLayer_def newStore_def
      newModel_def Let_def)

lemma exStore_layers:
  "layers exStore (Suc 0) = Some \<lparr>methInfo = 0, funcValue = tagLayer 1\<rparr>"
  "layers exStore 2 = Some \<lparr>methInfo = 0, funcValue = tagLayer 2\<rparr>"
  "layers exStore 3 = Some \<lparr>methInfo = 0, funcValue = tagLayer 3\<rparr>"
  "layers exStore 5 = Some \<lparr>methInfo = 4, funcValue = depthLayer\<rparr>"
  "layers exStore 7 = Some \<lparr>methInfo = 6, funcValue = voidLayer\<rparr>"
  "layers exStore 9 = Some \<lparr>methInfo = 8, funcValue = probeLayer\<rparr>"
  by (simp_all add: exStore_def exRegistry_def exDescribe_def registerLayers_def registerLayer_def newStore_def
      newModel_def Let_def)

text \<open>
  Claim C7, as the code has it. \<open>Call\<close> looks up the top layer of the method on the
  receiver's model and invokes that layer's function on the receiver with the top layer
  pushed in front of the receiver's own call stack. The stack handed to the layer is
  the single frame of the top layer when the receiver's call stack is empty, that is
  for a collection used outside any invocation.
\<close>

theorem Call_pushes_top_layer:
  "methods (mi rc) methName = Some ip \<and> methInfos st ip = Some methInf \<and>
   layers st (topLayer methInf) = Some ml \<longrightarrow>
     Call (Suc n) st rc methName args =
       firstResult (invoke n st ml (rc\<lparr>callStack := topLayer methInf # callStack rc\<rparr>) args) \<and>
     (callStack rc = [] \<longrightarrow>
        Call (Suc n) st rc methName args =
          firstResult (invoke n st ml (rc\<lparr>callStack := [topLayer methInf]\<rparr>) args))"
proof (intro impI, elim conjE)
  assume m: "methods (mi rc) methName = Some ip" and i: "methInfos st ip = Some methInf"
    and l: "layers st (topLayer methInf) = Some ml"
  have "Call (Suc n) st rc methName args = call (Suc n) st rc (topLayer methInf) args"
    using m i by (rule Call_known)
  also have "\<dots> = firstResult (invoke n st ml (rc\<lparr>callStack := topLayer methInf # callStack rc\<rparr>) args)"
    using l by (simp add: call_Suc)
  finally have c: "Call (Suc n) st rc methName args =
      firstResult (invoke n st ml (rc\<lparr>callStack := topLayer methInf # callStack rc\<rparr>) args)" .
  show "Call (Suc n) st rc methName args =
       firstResult (invoke n st ml (rc\<lparr>callStack := topLayer methInf # callStack rc\<rparr>) args) \<and>
     (callStack rc = [] \<longrightarrow>
        Call (Suc n) st rc methName args =
          firstResult (invoke n st ml (rc\<lparr>callStack := [topLayer methInf]\<rparr>) args))"
    using c by simp
qed

text \<open>The statement at the method \<open>Depth\<close> of the example, on a fresh collection.\<close>

theorem Call_pushes_top_layer_witness:
  "methods (mi exUsers) ''Depth'' = Some 4 \<and>
   methInfos exStore 4 = Some \<lparr>topLayer = 5, nextLayer = Map.empty\<rparr> \<and>
   layers exStore 5 = Some \<lparr>methInfo = 4, funcValue = depthLayer\<rparr> \<and>
   callStack exUsers = [] \<and>
   Call (Suc 0) exStore exUsers ''Depth'' [] =
     firstResult (invoke 0 exStore \<lparr>methInfo = 4, funcValue = depthLayer\<rparr> (exUsers\<lparr>callStack := [5]\<rparr>) []) \<and>
   Call (Suc 0) exStore exUsers ''Depth'' [] = Inr (IntV 1)"
  using Call_pushes_top_layer [of exUsers "''Depth''" 4 exStore "\<lparr>topLayer = 5, nextLayer = Map.empty\<rparr>"
      "\<lparr>methInfo = 4, funcValue = depthLayer\<rparr>" 0 "[]"]
  by (simp add: exRegistry_methods exStore_methInfos exStore_layers firstResult_def invoke_def depthLayer_def)

text \<open>
  Claim C7 as written (exactly one frame) fails for a receiver that is itself inside an
  invocation: the collection the layer at 9 receives has the stack \<open>[9]\<close>, and
  \<open>Call\<close> on it hands the \<open>Depth\<close> layer two frames, where the one-frame stack
  would make that layer answer 1. The last conjunct runs the whole scenario from a
  fresh collection.
\<close>

theorem Call_one_frame_counterexample:
  "methods (mi (exUsers\<lparr>callStack := [9]\<rparr>)) ''Depth'' = Some 4 \<and>
   methInfos exStore 4 = Some \<lparr>topLayer = 5, nextLayer = Map.empty\<rparr> \<and>
   layers exStore 5 = Some \<lparr>methInfo = 4, funcValue = depthLayer\<rparr> \<and>
   Call (Suc 0) exStore (exUsers\<lparr>callStack := [9]\<rparr>) ''Depth'' [] = Inr (IntV 2) \<and>
   firstResult (invoke 0 exStore \<lparr>methInfo = 4, funcValue = depthLayer\<rparr>
                  (exUsers\<lparr>callStack := [5]\<rparr>) []) = Inr (IntV 1) \<and>
   Call (Suc (Suc 0)) exStore exUsers ''Probe'' [] = Inr (IntV 2)"
  by (simp add: Call_known [of _ _ 4 _ "\<lparr>topLayer = 5, nextLayer = Map.empty\<rparr>"]
      Call_known [of _ _ 8 _ "\<lparr>topLayer = 9, nextLayer = Map.empty\<rparr>"] call_Suc
      exRegistry_methods exStore_methInfos exStore_layers firstResult_def invoke_def depthLayer_def
      probeLayer_def entryPoints_def)

text \<open>
  Claim C9. \<open>Call\<close> takes the fatal path with message ``Unknown method in model'' when
  the method is unknown; when it is known, \<open>Call\<close> fails only with a failure of the
  invoked layer's function and returns when that function returns. \<open>Super\<close> takes the
  fatal path with message ``Empty call stack'' on an empty call stack; on a non-empty
  one it returns nil when the innermost layer has no layer below it, and otherwise
  fails only with a failure of the invoked layer's function.
\<close>

theorem fatal_paths:
  "(methods (mi rc) methName = None \<longrightarrow>
      Call n st rc methName args =
        Inl (LogAndPanic ''Unknown method in model'' [(''method'', methName), (''model'', name (mi rc))]))
   \<and>
   (methods (mi rc) methName = Some ip \<and> methInfos st ip = Some methInf \<and>
    layers st (topLayer methInf) = Some ml \<longrightarrow>
      (\<forall>e. Call (Suc n) st rc methName args = Inl e \<longrightarrow>
           invoke n st ml (rc\<lparr>callStack := topLayer methInf # callStack rc\<rparr>) args = Inl e) \<and>
      (\<forall>retVal. invoke n st ml (rc\<lparr>callStack := topLayer methInf # callStack rc\<rparr>) args = Inr retVal \<longrightarrow>
           (\<exists>v. Call (Suc n) st rc methName args = Inr v)))
   \<and>
   (callStack rc = [] \<longrightarrow>
      Super n st rc args = Inl (LogAndPanic ''Empty call stack'' [(''model'', name (mi rc))]))
   \<and>
   (callStack rc = cur # rest \<and> layers st cur = Some cl \<and> methInfos st (methInfo cl) = Some methInf' \<longrightarrow>
      (getNextLayer methInf' cur = None \<longrightarrow> Super n st rc args = Inr NilV) \<and>
      (\<forall>nxt ml'. getNextLayer methInf' cur = Some nxt \<and> layers st nxt = Some ml' \<longrightarrow>
         (\<forall>e. Super (Suc n) st rc args = Inl e \<longrightarrow>
              invoke n st ml' (rc\<lparr>callStack := nxt # callStack rc\<rparr>) args = Inl e) \<and>
         (\<forall>retVal. invoke n st ml' (rc\<lparr>callStack := nxt # callStack rc\<rparr>) args = Inr retVal \<longrightarrow>
              (\<exists>v. Super (Suc n) st rc args = Inr v))))"
proof (intro conjI impI allI; (elim conjE)?)
  assume "methods (mi rc) methName = None"
  then show "Call n st rc methName args =
        Inl (LogAndPanic ''Unknown method in model'' [(''method'', methName), (''model'', name (mi rc))])"
    by (simp add: Call.simps)
next
  fix e
  assume "methods (mi rc) methName = Some ip" "methInfos st ip = Some methInf"
    "layers st (topLayer methInf) = Some ml" "Call (Suc n) st rc methName args = Inl e"
  then show "invoke n st ml (rc\<lparr>callStack := topLayer methInf # callStack rc\<rparr>) args = Inl e"
    by (simp add: Call_known call_Suc firstResult_def split: sum.splits if_splits)
next
  fix retVal
  assume "methods (mi rc) methName = Some ip" "methInfos st ip = Some methInf"
    "layers st (topLayer methInf) = Some ml"
    "invoke n st ml (rc\<lparr>callStack := topLayer methInf # callStack rc\<rparr>) args = Inr retVal"
  then show "\<exists>v. Call (Suc n) st rc methName args = Inr v"
    by (simp add: Call_known call_Suc firstResult_def)
next
  assume "callStack rc = []"
  then show "Super n st rc args = Inl (LogAndPanic ''Empty call stack'' [(''model'', name (mi rc))])"
    by (rule Super_Nil)
next
  assume "callStack rc = cur # rest" "layers st cur = Some cl" "methInfos st (methInfo cl) = Some methInf'"
    "getNextLayer methInf' cur = None"
  then show "Super n st rc args = Inr NilV"
    by (simp add: Super_Cons)
next
  fix nxt ml' e
  assume "callStack rc = cur # rest" "layers st cur = Some cl" "methInfos st (methInfo cl) = Some methInf'"
    "getNextLayer methInf' cur = Some nxt" "layers st nxt = Some ml'" "Super (Suc n) st rc args = Inl e"
  then show "invoke n st ml' (rc\<lparr>callStack := nxt # callStack rc\<rparr>) args = Inl e"
    by (simp add: Super_Cons [of rc cur rest st cl methInf'] call_Suc firstResult_def split: sum.splits if_splits)
next
  fix nxt ml' retVal
  assume "callStack rc = cur # rest" "layers st cur = Some cl" "methInfos st (methInfo cl) = Some methInf'"
    "getNextLayer methInf' cur = Some nxt" "layers st nxt = Some ml'"
    "invoke n st ml' (rc\<lparr>callStack := nxt # callStack rc\<rparr>) args = Inr retVal"
  then show "\<exists>v. Super (Suc n) st rc args = Inr v"
    by (simp add: Super_Cons [of rc cur rest st cl methInf'] call_Suc firstResult_def)
qed

text \<open>
  Claim C10. When the function of the layer invoked by \<open>call\<close>, and so by \<open>Call\<close> or
  \<open>Super\<close>, returns the values \<open>retVal\<close>, the dispatch returns nil if there are
  none and the first one otherwise; further values are dropped.
\<close>

theorem call_returns_first_value:
  "(layers st l = Some ml \<and> invoke n st ml (rc\<lparr>callStack := l # callStack rc\<rparr>) args = Inr retVal \<longrightarrow>
      call (Suc n) st rc l args = Inr (case retVal of [] \<Rightarrow> NilV | v # _ \<Rightarrow> v))
   \<and>
   (methods (mi rc) methName = Some ip \<and> methInfos st ip = Some methInf \<and> topLayer methInf = l \<and>
    layers st l = Some ml \<and> invoke n st ml (rc\<lparr>callStack := l # callStack rc\<rparr>) args = Inr retVal \<longrightarrow>
      Call (Suc n) st rc methName args = Inr (case retVal of [] \<Rightarrow> NilV | v # _ \<Rightarrow> v))
   \<and>
   (callStack rc = cur # rest \<and> layers st cur = Some cl \<and> methInfos st (methInfo cl) = Some methInf' \<and>
    getNextLayer methInf' cur = Some l \<and>
    layers st l = Some ml \<and> invoke n st ml (rc\<lparr>callStack := l # callStack rc\<rparr>) args = Inr retVal \<longrightarrow>
      Super (Suc n) st rc args = Inr (case retVal of [] \<Rightarrow> NilV | v # _ \<Rightarrow> v))"
proof -
  have c: "call (Suc n) st rc l args = Inr (case retVal of [] \<Rightarrow> NilV | v # _ \<Rightarrow> v)"
    if "layers st l = Some ml" "invoke n st ml (rc\<lparr>callStack := l # callStack rc\<rparr>) args = Inr retVal"
    using that by (simp add: call_Suc firstResult_def split: list.splits)
  show ?thesis
    using c by (auto simp: Call_known Super_Cons [of rc cur rest st cl methInf'])
qed


lemma exStore_chain:
  "\<exists>i. methInfos exStore 0 = Some i \<and> topLayer i = 3 \<and> getNextLayer i (Suc 0) = None \<and>
       getNextLayer i 2 = Some (Suc 0) \<and> getNextLayer i 3 = Some 2"
  by (simp add: exStore_def exRegistry_def exDescribe_def registerLayers_def registerLayer_def newStore_def
      newModel_def Let_def getNextLayer_def)

text \<open>The three conjuncts at the three-layer example.\<close>

theorem Super_walks_chain_witness:
  "Super (Suc 0) exStore (exUsers\<lparr>callStack := [3]\<rparr>) [StrV ''x''] =
     firstResult (invoke 0 exStore \<lparr>methInfo = 0, funcValue = tagLayer 2\<rparr>
                    (exUsers\<lparr>callStack := [2, 3]\<rparr>) [StrV ''x'']) \<and>
   Call (Suc 0) (fst exDescribe) \<lparr>mi = snd exDescribe, callStack = []\<rparr> ''Describe'' [] =
     firstResult (tagLayer 3 (entryPoints 0 (fst exDescribe)) \<lparr>mi = snd exDescribe, callStack = [3]\<rparr> []) \<and>
   Super (Suc 0) (fst exDescribe) \<lparr>mi = snd exDescribe, callStack = [2, 3]\<rparr> [] =
     firstResult (tagLayer 1 (entryPoints 0 (fst exDescribe)) \<lparr>mi = snd exDescribe, callStack = [1, 2, 3]\<rparr> []) \<and>
   Super 0 (fst exDescribe) \<lparr>mi = snd exDescribe, callStack = [1, 2, 3]\<rparr> [] = Inr NilV \<and>
   Call 3 (fst exDescribe) \<lparr>mi = snd exDescribe, callStack = []\<rparr> ''Describe'' [] =
     Inr (ListV [IntV 3, IntV 2, IntV 1])"
proof -
  from exStore_chain obtain i where i: "methInfos exStore 0 = Some i" "topLayer i = 3"
    "getNextLayer i (Suc 0) = None" "getNextLayer i 2 = Some (Suc 0)" "getNextLayer i 3 = Some 2"
    by blast
  have fresh: "methods (newModel ''User'') ''Describe'' = None"
    by (simp add: newModel_def)
  have reg: "registerLayers (newStore, newModel ''User'') ''Describe'' [tagLayer 1, tagLayer 2, tagLayer 3] =
      (fst exDescribe, snd exDescribe)"
    by (simp add: exDescribe_def)
  have reg': "registerLayers (newStore, newModel ''User'') ''Describe'' (map tagLayer [1, 2, 3]) =
      (fst exDescribe, snd exDescribe)"
    by (simp add: exDescribe_def)
  have top: "heapTop newStore = 0" by (simp add: newStore_def)
  have 1: "Super (Suc 0) exStore (exUsers\<lparr>callStack := [3]\<rparr>) [StrV ''x''] =
     firstResult (invoke 0 exStore \<lparr>methInfo = 0, funcValue = tagLayer 2\<rparr>
                    (exUsers\<lparr>callStack := [2, 3]\<rparr>) [StrV ''x''])"
    using Super_walks_chain [where rc = "exUsers\<lparr>callStack := [3]\<rparr>" and cur = 3 and rest = "[]"
        and st = exStore and cl = "\<lparr>methInfo = 0, funcValue = tagLayer 3\<rparr>" and methInf = i and nxt = 2
        and ml = "\<lparr>methInfo = 0, funcValue = tagLayer 2\<rparr>" and n = 0 and args = "[StrV ''x'']"]
      i by (simp add: exStore_layers)
  have 2: "Call (Suc 0) (fst exDescribe) \<lparr>mi = snd exDescribe, callStack = []\<rparr> ''Describe'' [] =
     firstResult (tagLayer 3 (entryPoints 0 (fst exDescribe)) \<lparr>mi = snd exDescribe, callStack = [3]\<rparr> [])"
    using Super_walks_chain [where mI = "newModel ''User''" and meth = "''Describe''"
        and fs = "[tagLayer 1, tagLayer 2, tagLayer 3]" and stI = newStore and stR = "fst exDescribe"
        and mR = "snd exDescribe" and rcR = "\<lparr>mi = snd exDescribe, callStack = []\<rparr>" and n = 0 and args = "[]"]
      fresh reg top by (simp add: eval_nat_numeral)
  have 3: "Super (Suc 0) (fst exDescribe) \<lparr>mi = snd exDescribe, callStack = [2, 3]\<rparr> [] =
     firstResult (tagLayer 1 (entryPoints 0 (fst exDescribe)) \<lparr>mi = snd exDescribe, callStack = [1, 2, 3]\<rparr> [])"
    using Super_walks_chain [where mI = "newModel ''User''" and meth = "''Describe''"
        and fs = "[tagLayer 1, tagLayer 2, tagLayer 3]" and stI = newStore and stR = "fst exDescribe"
        and mR = "snd exDescribe" and rcR = "\<lparr>mi = snd exDescribe, callStack = [2, 3]\<rparr>" and n = 0
        and args = "[]" and j = 0 and restR = "[3]"]
      fresh reg top by (simp add: eval_nat_numeral)
  have 4: "Super 0 (fst exDescribe) \<lparr>mi = snd exDescribe, callStack = [1, 2, 3]\<rparr> [] = Inr NilV"
    using Super_walks_chain [where mI = "newModel ''User''" and meth = "''Describe''"
        and fs = "[tagLayer 1, tagLayer 2, tagLayer 3]" and stI = newStore and stR = "fst exDescribe"
        and mR = "snd exDescribe" and rcR = "\<lparr>mi = snd exDescribe, callStack = [1, 2, 3]\<rparr>" and n = 0
        and args = "[]" and restR = "[2, 3]"]
      fresh reg top by (simp add: eval_nat_numeral)
  have 5: "Call 3 (fst exDescribe) \<lparr>mi = snd exDescribe, callStack = []\<rparr> ''Describe'' [] =
     Inr (ListV [IntV 3, IntV 2, IntV 1])"
    using Super_walks_chain [where mI = "newModel ''User''" and meth = "''Describe''"
        and ks = "[1, 2, 3]" and stI = newStore and stR = "fst exDescribe"
        and mR = "snd exDescribe" and rcR = "\<lparr>mi = snd exDescribe, callStack = []\<rparr>" and args = "[]"]
      fresh reg' by (simp add: eval_nat_numeral)
  from 1 2 3 4 5 show ?thesis by blast
qed

text \<open>Each case at the example; \<open>Describe\<close> at depth one shows a failure that
  comes from inside the invoked layer.\<close>

theorem fatal_paths_witness:
  "methods (mi exUsers) ''Rename'' = None \<and>
   Call (Suc 0) exStore exUsers ''Rename'' [IntV 7] =
     Inl (LogAndPanic ''Unknown method in model'' [(''method'', ''Rename''), (''model'', ''User'')]) \<and>
   methods (mi exUsers) ''Depth'' = Some 4 \<and>
   (\<exists>v. Call (Suc 0) exStore exUsers ''Depth'' [] = Inr v) \<and>
   Call (Suc 0) exStore exUsers ''Describe'' [] = Inl OutOfFuel \<and>
   invoke 0 exStore \<lparr>methInfo = 0, funcValue = tagLayer 3\<rparr> (exUsers\<lparr>callStack := [3]\<rparr>) [] = Inl OutOfFuel \<and>
   callStack exUsers = [] \<and>
   Super (Suc 0) exStore exUsers [] = Inl (LogAndPanic ''Empty call stack'' [(''model'', ''User'')]) \<and>
   Super (Suc 0) exStore (exUsers\<lparr>callStack := [1, 2, 3]\<rparr>) [] = Inr NilV \<and>
   (\<exists>v. Super (Suc 0) exStore (exUsers\<lparr>callStack := [2, 3]\<rparr>) [] = Inr v)"
proof -
  from exStore_chain obtain i where i: "methInfos exStore 0 = Some i" "topLayer i = 3"
    "getNextLayer i (Suc 0) = None" "getNextLayer i 2 = Some (Suc 0)" "getNextLayer i 3 = Some 2"
    by blast
  note ex = exRegistry_methods exStore_methInfos exStore_layers
  have 1: "Call (Suc 0) exStore exUsers ''Rename'' [IntV 7] =
     Inl (LogAndPanic ''Unknown method in model'' [(''method'', ''Rename''), (''model'', ''User'')])"
    using fatal_paths [where rc = exUsers and methName = "''Rename''" and n = "Suc 0" and st = exStore
        and args = "[IntV 7]"]
    by (simp add: ex)
  have inv: "invoke 0 exStore \<lparr>methInfo = 4, funcValue = depthLayer\<rparr> (exUsers\<lparr>callStack := [5]\<rparr>) [] =
      Inr [IntV 1, StrV ''ignored'']"
    by (simp add: invoke_def depthLayer_def)
  have 2: "\<exists>v. Call (Suc 0) exStore exUsers ''Depth'' [] = Inr v"
    using fatal_paths [where rc = exUsers and methName = "''Depth''" and n = 0 and st = exStore
        and args = "[]" and ip = 4 and methInf = "\<lparr>topLayer = 5, nextLayer = Map.empty\<rparr>"
        and ml = "\<lparr>methInfo = 4, funcValue = depthLayer\<rparr>"] inv
    by (simp add: ex)
  have 3: "Call (Suc 0) exStore exUsers ''Describe'' [] = Inl OutOfFuel"
    by (simp add: Call_known [OF _ i(1)] i(2) ex call_Suc invoke_def tagLayer_def entryPoints_def
        Super_at [OF i(1)] i call.simps(1) firstResult_def)
  have 4: "invoke 0 exStore \<lparr>methInfo = 0, funcValue = tagLayer 3\<rparr> (exUsers\<lparr>callStack := [3]\<rparr>) [] = Inl OutOfFuel"
    using fatal_paths [where rc = exUsers and methName = "''Describe''" and n = 0 and st = exStore
        and args = "[]" and ip = 0 and methInf = i
        and ml = "\<lparr>methInfo = 0, funcValue = tagLayer 3\<rparr>"] 3 i
    by (simp add: ex)
  have 5: "Super (Suc 0) exStore exUsers [] = Inl (LogAndPanic ''Empty call stack'' [(''model'', ''User'')])"
    using fatal_paths [where rc = exUsers and n = "Suc 0" and st = exStore and args = "[]"]
    by (simp add: ex)
  have 6: "Super (Suc 0) exStore (exUsers\<lparr>callStack := [1, 2, 3]\<rparr>) [] = Inr NilV"
    using fatal_paths [where rc = "exUsers\<lparr>callStack := [1, 2, 3]\<rparr>" and n = "Suc 0" and st = exStore
        and args = "[]" and cur = 1 and rest = "[2, 3]" and cl = "\<lparr>methInfo = 0, funcValue = tagLayer 1\<rparr>"
        and methInf' = i] i
    by (simp add: ex)
  have inv': "invoke 0 exStore \<lparr>methInfo = 0, funcValue = tagLayer 1\<rparr> (exUsers\<lparr>callStack := [1, 2, 3]\<rparr>) [] =
      Inr [ListV [IntV 1]]"
    by (simp add: invoke_def tagLayer_def entryPoints_def Super_at [OF i(1)] i ex)
  have 7: "\<exists>v. Super (Suc 0) exStore (exUsers\<lparr>callStack := [2, 3]\<rparr>) [] = Inr v"
    using fatal_paths [where rc = "exUsers\<lparr>callStack := [2, 3]\<rparr>" and n = 0 and st = exStore
        and args = "[]" and cur = 2 and rest = "[3]" and cl = "\<lparr>methInfo = 0, funcValue = tagLayer 2\<rparr>"
        and methInf' = i, THEN conjunct2, THEN conjunct2, THEN conjunct2, THEN mp, THEN conjunct2,
        rule_format, of 1 "\<lparr>methInfo = 0, funcValue = tagLayer 1\<rparr>", THEN conjunct2, rule_format,
        of "[ListV [IntV 1]]"] i inv'
    by (simp add: ex)
  from 1 2 3 4 5 6 7 show ?thesis by (simp add: ex)
qed

text \<open>Two values returned, none returned, and one returned below a \<open>Super\<close>.\<close>

theorem call_returns_first_value_witness:
  "call (Suc 0) exStore exUsers 5 [] = Inr (IntV 1) \<and>
   Call (Suc 0) exStore exUsers ''Depth'' [] = Inr (IntV 1) \<and>
   Call (Suc 0) exStore exUsers ''Reset'' [] = Inr NilV \<and>
   Super (Suc 0) exStore (exUsers\<lparr>callStack := [2, 3]\<rparr>) [] = Inr (ListV [IntV 1])"
proof -
  from exStore_chain obtain i where i: "methInfos exStore 0 = Some i" "topLayer i = 3"
    "getNextLayer i (Suc 0) = None" "getNextLayer i 2 = Some (Suc 0)" "getNextLayer i 3 = Some 2"
    by blast
  note ex = exRegistry_methods exStore_methInfos exStore_layers
  have inv: "invoke 0 exStore \<lparr>methInfo = 4, funcValue = depthLayer\<rparr> (exUsers\<lparr>callStack := 5 # callStack exUsers\<rparr>) [] =
      Inr [IntV 1, StrV ''ignored'']"
    by (simp add: invoke_def depthLayer_def ex)
  have inv0: "invoke 0 exStore \<lparr>methInfo = 6, funcValue = voidLayer\<rparr> (exUsers\<lparr>callStack := 7 # callStack exUsers\<rparr>) [] =
      Inr []"
    by (simp add: invoke_def voidLayer_def)
  have inv': "invoke 0 exStore \<lparr>methInfo = 0, funcValue = tagLayer 1\<rparr>
       (exUsers\<lparr>callStack := [2, 3], callStack := [1, 2, 3]\<rparr>) [] = Inr [ListV [IntV 1]]"
    by (simp add: invoke_def tagLayer_def entryPoints_def Super_at [OF i(1)] i ex)
  have 1: "call (Suc 0) exStore exUsers 5 [] = Inr (IntV 1)"
    using call_returns_first_value [where st = exStore and l = 5 and ml = "\<lparr>methInfo = 4, funcValue = depthLayer\<rparr>"
        and n = 0 and rc = exUsers and args = "[]" and retVal = "[IntV 1, StrV ''ignored'']"] inv
    by (simp add: ex)
  have 2: "Call (Suc 0) exStore exUsers ''Depth'' [] = Inr (IntV 1)"
    using call_returns_first_value [where st = exStore and l = 5 and ml = "\<lparr>methInfo = 4, funcValue = depthLayer\<rparr>"
        and n = 0 and rc = exUsers and args = "[]" and retVal = "[IntV 1, StrV ''ignored'']"
        and methName = "''Depth''" and ip = 4 and methInf = "\<lparr>topLayer = 5, nextLayer = Map.empty\<rparr>"] inv
    by (simp add: ex)
  have 3: "Call (Suc 0) exStore exUsers ''Reset'' [] = Inr NilV"
    using call_returns_first_value [where st = exStore and l = 7 and ml = "\<lparr>methInfo = 6, funcValue = voidLayer\<rparr>"
        and n = 0 and rc = exUsers and args = "[]" and retVal = "[]"
        and methName = "''Reset''" and ip = 6 and methInf = "\<lparr>topLayer = 7, nextLayer = Map.empty\<rparr>"] inv0
    by (simp add: ex)
  have 4: "Super (Suc 0) exStore (exUsers\<lparr>callStack := [2, 3]\<rparr>) [] = Inr (ListV [IntV 1])"
    using call_returns_first_value [where st = exStore and l = 1 and ml = "\<lparr>methInfo = 0, funcValue = tagLayer 1\<rparr>"
        and n = 0 and rc = "exUsers\<lparr>callStack := [2, 3]\<rparr>" and args = "[]" and retVal = "[ListV [IntV 1]]"
        and cur = 2 and rest = "[3]" and cl = "\<lparr>methInfo = 0, funcValue = tagLayer 2\<rparr>" and methInf' = i] inv' i
    by (simp add: ex)
  from 1 2 3 4 show ?thesis by blast
qed

section \<open>Properties of the query builder\<close>

subsection \<open>Naming conventions\<close>

lemma getField_unique:
  "namesUnique fs \<Longrightarrow> f \<in> set fs \<Longrightarrow>
   getField fs (fieldName f) = Some f \<and> getField fs (json f) = Some f"
proof (induction fs)
  case Nil
  then show ?case by simp
next
  case (Cons g fs)
  show ?case
  proof (cases "f = g")
    case True
    then show ?thesis by (simp add: getField_def)
  next
    case False
    with Cons.prems have f: "f \<in> set fs" by simp
    from Cons.prems have u: "namesUnique fs" and
      d: "fieldName f \<noteq> fieldName g \<and> fieldName f \<noteq> json g \<and> json f \<noteq> fieldName g \<and> json f \<noteq> json g"
      using f by (auto simp: list_all_iff)
    from Cons.IH [OF u f] d show ?thesis
      by (auto simp: getField_def)
  qed
qed

lemma getField_mem: "getField fs seg = Some f \<Longrightarrow> f \<in> set fs"
  by (auto simp: getField_def find_Some_iff)

lemma wfRegistry_model:
  "wfRegistry reg \<Longrightarrow> map_of reg mname = Some md \<Longrightarrow> namesUnique (modelFields md)"
  by (auto simp: wfRegistry_def list_all_iff dest!: map_of_SomeD)

lemma getField_pick:
  assumes "wfRegistry reg" "picksName pick" "map_of reg mname = Some md"
    "getField (modelFields md) seg = Some f"
  shows "getField (modelFields md) (pick f) = Some f"
proof -
  have u: "namesUnique (modelFields md)" using assms(1,3) by (rule wfRegistry_model)
  have m: "f \<in> set (modelFields md)" using assms(4) by (rule getField_mem)
  from assms(2) have "pick f = json f \<or> pick f = fieldName f" by (simp add: picksName_def)
  with getField_unique [OF u m] show ?thesis by auto
qed

lemma respell_Nil_iff: "respell pick reg mname p = [] \<longleftrightarrow> p = []"
  by (cases p) (auto split: option.splits)

lemma resolvePath_respell:
  assumes "wfRegistry reg" "picksName pick"
  shows "resolvePath reg mname a p = Inr x \<Longrightarrow>
         resolvePath reg mname a (respell pick reg mname p) = Inr x"
proof (induction p arbitrary: mname a x)
  case Nil
  then show ?case by simp
next
  case (Cons seg rest)
  from Cons.prems obtain md f where
    md: "map_of reg mname = Some md" and f: "getField (modelFields md) seg = Some f"
    by (auto split: option.splits)
  note pf = getField_pick [OF assms md f]
  show ?case
  proof (cases "rest = []")
    case True
    with Cons.prems md f pf show ?thesis
      by (auto split: option.splits)
  next
    case False
    with Cons.prems md f obtain tm tmd steps col where
      tm: "relatedModel f = Some tm" and tmd: "map_of reg tm = Some tmd" and
      r: "resolvePath reg tm (a @ sqlSep @ tableName tmd) rest = Inr (steps, col)" and
      x: "x = (\<lparr>srcAlias = a, srcColumn = json f, tgtTable = tableName tmd,
                 tgtAlias = a @ sqlSep @ tableName tmd, tgtColumn = ''id''\<rparr> # steps, col)"
      by (auto simp: Let_def split: option.splits sum.splits)
    from Cons.IH [OF r] have "resolvePath reg tm (a @ sqlSep @ tableName tmd) (respell pick reg tm rest) = Inr (steps, col)" .
    with md f pf tm tmd x False show ?thesis
      by (simp add: Let_def respell_Nil_iff)
  qed
qed

lemma resolve_respell:
  assumes "wfRegistry reg" "picksName pick" "resolve reg mname p = Inr x"
  shows "resolve reg mname (respell pick reg mname p) = Inr x"
  using assms(3) resolvePath_respell [OF assms(1,2)]
  by (auto simp: resolve_def split: option.splits)

lemma resolveAll_respell:
  assumes "wfRegistry reg" "picksName pick"
  shows "resolveAll reg mname ps = Inr xs \<Longrightarrow>
         resolveAll reg mname (map (respell pick reg mname) ps) = Inr xs"
proof (induction ps arbitrary: xs)
  case Nil
  then show ?case by simp
next
  case (Cons p ps)
  then show ?case
    by (auto simp: resolve_respell [OF assms] split: sum.splits)
qed

lemma nodeSQL_respell:
  shows "wfRegistry reg \<Longrightarrow> picksName pick \<Longrightarrow> nodeSQL reg mname ph first c = Inr r \<Longrightarrow>
         nodeSQL reg mname ph first (respellNode pick reg mname c) = Inr r"
    and "wfRegistry reg \<Longrightarrow> picksName pick \<Longrightarrow> nodesSQL reg mname ph first cs = Inr r' \<Longrightarrow>
         nodesSQL reg mname ph first (map (respellNode pick reg mname) cs) = Inr r'"
proof (induction reg mname ph first c and reg mname ph first cs arbitrary: r and r'
    rule: nodeSQL_nodesSQL.induct)
  case (1 reg mname ph first isOr path op v)
  from 1(3) obtain x where x: "resolve reg mname path = Inr x"
    by (auto split: sum.splits)
  from resolve_respell [OF 1(1,2) x] x 1(3) show ?case
    by simp
next
  case (2 reg mname ph first isOr cs)
  from 2(4) obtain x where x: "nodesSQL reg mname ph True cs = Inr x"
    by (auto split: sum.splits)
  from 2(1) [OF 2(2,3) x] x 2(4) show ?case
    by simp
next
  case (3 reg mname ph first)
  then show ?case by simp
next
  case (4 reg mname ph first c cs)
  from 4(5) obtain x where x: "nodeSQL reg mname ph first c = Inr x"
    by (auto split: sum.splits)
  obtain sql1 args1 where x1: "x = (sql1, args1)" by (cases x)
  from 4(5) x x1 obtain y where y: "nodesSQL reg mname ph False cs = Inr y"
    by (auto split: sum.splits)
  from 4(1) [OF 4(3,4) x] 4(2) [OF x x1 [symmetric] 4(3,4) y] x y 4(5) show ?case
    by simp
qed

lemma nodePaths_respell:
  "nodePaths (respellNode pick reg mname c) = map (respell pick reg mname) (nodePaths c)"
  by (induction c) (auto simp: map_concat comp_def cong: map_cong)

lemma condPaths_respell:
  "concat (map nodePaths (map (respellNode pick reg mname) cs)) =
   map (respell pick reg mname) (concat (map nodePaths cs))"
  by (induction cs) (auto simp: nodePaths_respell)


lemma qModel_respellQuery: "qModel (respellQuery pick reg q) = qModel q"
  by (simp add: respellQuery_def)

lemma whereClauseWith_respell:
  assumes "wfRegistry reg" "picksName pick" "whereClauseWith ph reg q = Inr r"
  shows "whereClauseWith ph reg (respellQuery pick reg q) = Inr r"
proof -
  from assms(3) obtain x where x: "nodesSQL reg (qModel q) ph True (cond q) = Inr x"
    by (auto simp: whereClauseWith_def split: sum.splits)
  from nodeSQL_respell(2) [OF assms(1,2) x] x assms(3) show ?thesis
    by (simp add: whereClauseWith_def respellQuery_def)
qed

lemma selectQueryWith_respell:
  assumes "wfRegistry reg" "picksName pick" "selectQueryWith ph reg q fs = Inr r"
    "map splitPath fs' = map (respell pick reg (qModel q) \<circ> splitPath) fs"
  shows "selectQueryWith ph reg (respellQuery pick reg q) fs' = Inr r"
proof -
  from assms(3) obtain md frs crs w where
    md: "map_of reg (qModel q) = Some md" and
    frs: "resolveAll reg (qModel q) (map splitPath fs) = Inr frs" and
    crs: "resolveAll reg (qModel q) (concat (map nodePaths (cond q))) = Inr crs" and
    w: "whereClauseWith ph reg q = Inr w"
    by (auto simp: selectQueryWith_def split: option.splits sum.splits)
  have frs': "resolveAll reg (qModel q) (map splitPath fs') = Inr frs"
    using resolveAll_respell [OF assms(1,2) frs] assms(4) by simp
  have crs': "resolveAll reg (qModel q) (concat (map nodePaths (cond (respellQuery pick reg q)))) = Inr crs"
  proof -
    have "cond (respellQuery pick reg q) = map (respellNode pick reg (qModel q)) (cond q)"
      by (simp add: respellQuery_def)
    then show ?thesis
      using resolveAll_respell [OF assms(1,2) crs] by (simp only: condPaths_respell)
  qed
  have w': "whereClauseWith ph reg (respellQuery pick reg q) = Inr w"
    using assms(1,2) w by (rule whereClauseWith_respell)
  from assms(3) md frs crs w frs' crs' w' show ?thesis
    by (simp add: selectQueryWith_def qModel_respellQuery)
qed

text \<open>
  Claim C1. In a registry where no name is shared by two fields of a model, let every
  segment of every path be rewritten as either name of the field it names (\<open>json\<close>
  for the storage convention, \<open>fieldName\<close> for the alias convention, any other choice
  for a mix). Then a path that resolves gives the same join steps and final column,
  and a query that renders gives the same SQL text and arguments, for
  \<open>sqlWhereClause\<close> and for \<open>selectQuery\<close>.
\<close>

theorem naming_conventions_interchangeable:
  assumes "wfRegistry reg" and "picksName pick"
  shows "(resolve reg mname p = Inr x \<longrightarrow> resolve reg mname (respell pick reg mname p) = Inr x) \<and>
         (sqlWhereClause reg q = Inr r \<longrightarrow> sqlWhereClause reg (respellQuery pick reg q) = Inr r) \<and>
         (selectQuery reg q fs = Inr r \<and>
          map splitPath fs' = map (respell pick reg (qModel q) \<circ> splitPath) fs \<longrightarrow>
            selectQuery reg (respellQuery pick reg q) fs' = Inr r)"
  using resolve_respell [OF assms] whereClauseWith_respell [OF assms] selectQueryWith_respell [OF assms]
  unfolding sqlWhereClause_def selectQuery_def by blast

lemma test_wf: "wfRegistry testRegistry"
  by (simp add: wfRegistry_def testRegistry_def)

lemma test_select_alias:
  "selectQuery testRegistry rsAlias [''UserName'', ''Profile.BestPost.Title''] = Inr (expectedSelect, [StrV ''foo''])"
  by code_simp

lemma test_respell:
  "respellQuery json testRegistry rsAlias = rsStorage"
  "respellQuery fieldName testRegistry rsStorage = rsAlias"
  by code_simp+


lemma test_picks: "picksName json" "picksName fieldName" "picksName mixedPick"
  by (simp_all add: picksName_def mixedPick_def)

text \<open>The two builders of the test, lines 27 to 39, and a mixed spelling of the
  merged condition of line 48.\<close>

theorem naming_conventions_interchangeable_witness:
  "wfRegistry testRegistry \<and> picksName json \<and> picksName mixedPick \<and>
   resolve testRegistry ''User'' (splitPath ''Profile.BestPost.Title'') =
     Inr ([\<lparr>srcAlias = ''user'', srcColumn = ''profile_id'', tgtTable = ''profile'',
            tgtAlias = ''user__profile'', tgtColumn = ''id''\<rparr>,
           \<lparr>srcAlias = ''user__profile'', srcColumn = ''best_post_id'', tgtTable = ''post'',
            tgtAlias = ''user__profile__post'', tgtColumn = ''id''\<rparr>],
          ''user__profile__post'', ''title'') \<and>
   respell json testRegistry ''User'' (splitPath ''Profile.BestPost.Title'') =
     splitPath ''profile_id.best_post_id.title'' \<and>
   resolve testRegistry ''User'' (splitPath ''profile_id.best_post_id.title'') =
     resolve testRegistry ''User'' (splitPath ''Profile.BestPost.Title'') \<and>
   selectQuery testRegistry rsAlias [''UserName'', ''Profile.BestPost.Title''] =
     Inr (expectedSelect, [StrV ''foo'']) \<and>
   respellQuery json testRegistry rsAlias = rsStorage \<and>
   selectQuery testRegistry rsStorage [''user_name'', ''profile_id.best_post_id.title''] =
     Inr (expectedSelect, [StrV ''foo'']) \<and>
   sqlWhereClause testRegistry (respellQuery mixedPick testRegistry rsMerged) =
     sqlWhereClause testRegistry rsMerged \<and>
   sqlWhereClause testRegistry rsMerged =
     Inr (expectedWhere3, [StrV ''foo'', IntV 12, StrV ''jane'', FloatV (123456 / 100)])"
proof -
  note wf = test_wf
  have r: "resolve testRegistry ''User'' (splitPath ''Profile.BestPost.Title'') =
     Inr ([\<lparr>srcAlias = ''user'', srcColumn = ''profile_id'', tgtTable = ''profile'',
            tgtAlias = ''user__profile'', tgtColumn = ''id''\<rparr>,
           \<lparr>srcAlias = ''user__profile'', srcColumn = ''best_post_id'', tgtTable = ''post'',
            tgtAlias = ''user__profile__post'', tgtColumn = ''id''\<rparr>],
          ''user__profile__post'', ''title'')"
    by code_simp
  have sp: "respell json testRegistry ''User'' (splitPath ''Profile.BestPost.Title'') =
     splitPath ''profile_id.best_post_id.title''"
    by code_simp
  have r': "resolve testRegistry ''User'' (splitPath ''profile_id.best_post_id.title'') =
     resolve testRegistry ''User'' (splitPath ''Profile.BestPost.Title'')"
    using naming_conventions_interchangeable [OF wf test_picks(1),
        where mname = "''User''" and p = "splitPath ''Profile.BestPost.Title''"] r sp
    by simp
  have fs: "map splitPath [''user_name'', ''profile_id.best_post_id.title''] =
      map (respell json testRegistry (qModel rsAlias) \<circ> splitPath) [''UserName'', ''Profile.BestPost.Title'']"
    by code_simp
  have s: "selectQuery testRegistry rsStorage [''user_name'', ''profile_id.best_post_id.title''] =
     Inr (expectedSelect, [StrV ''foo''])"
    using naming_conventions_interchangeable [OF wf test_picks(1),
        where q = rsAlias and fs = "[''UserName'', ''Profile.BestPost.Title'']"
          and fs' = "[''user_name'', ''profile_id.best_post_id.title'']"
          and r = "(expectedSelect, [StrV ''foo''])"]
      test_select_alias fs test_respell(1)
    by simp
  have w: "sqlWhereClause testRegistry rsMerged =
     Inr (expectedWhere3, [StrV ''foo'', IntV 12, StrV ''jane'', FloatV (123456 / 100)])"
    by code_simp
  have w': "sqlWhereClause testRegistry (respellQuery mixedPick testRegistry rsMerged) =
     sqlWhereClause testRegistry rsMerged"
    using naming_conventions_interchangeable [OF wf test_picks(3),
        where q = rsMerged
          and r = "(expectedWhere3, [StrV ''foo'', IntV 12, StrV ''jane'', FloatV (123456 / 100)])"]
      w by simp
  from wf test_picks r sp r' test_select_alias test_respell(1) s w w' show ?thesis
    by simp
qed

subsection \<open>Merging conditions\<close>

lemma nodesSQL_append:
  "nodesSQL reg mname ph first (xs @ ys) =
     (case nodesSQL reg mname ph first xs of
        Inl e \<Rightarrow> Inl e
      | Inr (sql1, args1) \<Rightarrow>
          (case nodesSQL reg mname ph (first \<and> xs = []) ys of
             Inl e \<Rightarrow> Inl e
           | Inr (sql2, args2) \<Rightarrow> Inr (sql1 @ sql2, args1 @ args2)))"
proof (induction xs arbitrary: first)
  case Nil
  then show ?case by (simp split: sum.splits)
next
  case (Cons x xs)
  then show ?case by (simp split: sum.splits prod.splits)
qed

lemma whereClauseWith_nonempty:
  assumes "whereClauseWith ph reg q = Inr (w, args)" "w \<noteq> []"
  shows "\<exists>sql. nodesSQL reg (qModel q) ph True (cond q) = Inr (sql, args) \<and> sql \<noteq> [] \<and> w = ''WHERE '' @ sql"
  using assms by (auto simp: whereClauseWith_def split: sum.splits if_splits)

text \<open>
  Claim C6. Merging a condition \<open>c\<close> into a builder whose conditions render to a
  non-empty clause \<open>w\<close> renders \<open>w\<close>, then \<^verbatim>\<open>AND\<close> and the text of \<open>c\<close> between
  parentheses, with the arguments of \<open>c\<close> after those of the builder. A \<^verbatim>\<open>like\<close>
  predicate renders the operator text \<^verbatim>\<open>LIKE %?%\<close> and binds the value as it was
  given.
\<close>

theorem SetCond_merges_parenthesized:
  "(sqlWhereClause reg q = Inr (w, args) \<and> w \<noteq> [] \<and>
    sqlWhereClause reg (q\<lparr>cond := c\<rparr>) = Inr (''WHERE '' @ sqlc, argsc) \<longrightarrow>
      sqlWhereClause reg (SetCond q c) = Inr (w @ ''AND ('' @ sqlc @ '') '', args @ argsc))
   \<and>
   (resolve reg mname path = Inr (steps, al, col) \<longrightarrow>
      nodeSQL reg mname placeholder first (Pred isOr path OpLike v) =
        Inr (connector first isOr @ columnSQL al col @ '' LIKE %?% '', [v]))"
proof (intro conjI impI; (elim conjE)?)
  assume a: "sqlWhereClause reg q = Inr (w, args)" "w \<noteq> []"
    "sqlWhereClause reg (q\<lparr>cond := c\<rparr>) = Inr (''WHERE '' @ sqlc, argsc)"
  from whereClauseWith_nonempty [of placeholder reg q w args] a(1,2) obtain sql where
    s: "nodesSQL reg (qModel q) placeholder True (cond q) = Inr (sql, args)" "sql \<noteq> []" "w = ''WHERE '' @ sql"
    by (auto simp: sqlWhereClause_def)
  from whereClauseWith_nonempty [of placeholder reg "q\<lparr>cond := c\<rparr>" "''WHERE '' @ sqlc" argsc] a(3)
  have c: "nodesSQL reg (qModel q) placeholder True c = Inr (sqlc, argsc)"
    by (auto simp: sqlWhereClause_def)
  from s(1,2) have ne: "cond q \<noteq> []" by auto
  show "sqlWhereClause reg (SetCond q c) = Inr (w @ ''AND ('' @ sqlc @ '') '', args @ argsc)"
    using s c ne
    by (simp add: sqlWhereClause_def whereClauseWith_def SetCond_def condAndCond_def nodesSQL_append
        connector_def)
next
  assume "resolve reg mname path = Inr (steps, al, col)"
  then show "nodeSQL reg mname placeholder first (Pred isOr path OpLike v) =
        Inr (connector first isOr @ columnSQL al col @ '' LIKE %?% '', [v])"
    by (simp add: placeholder_def boundValues_def)
qed

text \<open>The scenario of lines 47 to 55 of the test: the builder holding the title and
  age conditions, merged with \<^verbatim>\<open>user_name like "jane" OR Profile.Money < 1234.56\<close>, gives
  the expected strings, and \<^verbatim>\<open>jane\<close> is bound unwrapped.\<close>

theorem SetCond_merges_parenthesized_witness:
  \<open>sqlWhereClause testRegistry rsAge = Inr (expectedWhere2, [StrV ''foo'', IntV 12]) \<and>
   sqlWhereClause testRegistry (rsAge\<lparr>cond := c2\<rparr>) =
     Inr (''WHERE '' @ ''"user".user_name LIKE %?% OR "user__profile".money < ? '',
          [StrV ''jane'', FloatV (123456 / 100)]) \<and>
   sqlWhereClause testRegistry rsMerged =
     Inr (expectedWhere2 @ ''AND ('' @ ''"user".user_name LIKE %?% OR "user__profile".money < ? '' @ '') '',
          [StrV ''foo'', IntV 12] @ [StrV ''jane'', FloatV (123456 / 100)]) \<and>
   expectedWhere2 @ ''AND ('' @ ''"user".user_name LIKE %?% OR "user__profile".money < ? '' @ '') '' =
     expectedWhere3 \<and>
   nodeSQL testRegistry ''User'' placeholder True (Pred False (splitPath ''user_name'') OpLike (StrV ''jane'')) =
     Inr (''"user".user_name LIKE %?% '', [StrV ''jane'']) \<and>
   selectQuery testRegistry rsMerged [''UserName'', ''Profile.BestPost.Title''] =
     Inr (expectedSelect3, [StrV ''foo'', IntV 12, StrV ''jane'', FloatV (123456 / 100)])\<close>
proof -
  have 1: "sqlWhereClause testRegistry rsAge = Inr (expectedWhere2, [StrV ''foo'', IntV 12])"
    by code_simp
  have 2: \<open>sqlWhereClause testRegistry (rsAge\<lparr>cond := c2\<rparr>) =
     Inr (''WHERE '' @ ''"user".user_name LIKE %?% OR "user__profile".money < ? '',
          [StrV ''jane'', FloatV (123456 / 100)])\<close>
    by code_simp
  have ne: "expectedWhere2 \<noteq> []" by code_simp
  have 3: \<open>sqlWhereClause testRegistry rsMerged =
     Inr (expectedWhere2 @ ''AND ('' @ ''"user".user_name LIKE %?% OR "user__profile".money < ? '' @ '') '',
          [StrV ''foo'', IntV 12] @ [StrV ''jane'', FloatV (123456 / 100)])\<close>
    using SetCond_merges_parenthesized [where reg = testRegistry and q = rsAge and c = c2
        and w = expectedWhere2 and args = "[StrV ''foo'', IntV 12]"
        and argsc = "[StrV ''jane'', FloatV (123456 / 100)]"] 1 2 ne
    unfolding rsMerged_def by blast
  have 4: \<open>expectedWhere2 @ ''AND ('' @ ''"user".user_name LIKE %?% OR "user__profile".money < ? '' @ '') '' =
     expectedWhere3\<close>
    by code_simp
  have r: "resolve testRegistry ''User'' (splitPath ''user_name'') = Inr ([], ''user'', ''user_name'')"
    by code_simp
  have 5: \<open>nodeSQL testRegistry ''User'' placeholder True (Pred False (splitPath ''user_name'') OpLike (StrV ''jane'')) =
     Inr (''"user".user_name LIKE %?% '', [StrV ''jane''])\<close>
    using SetCond_merges_parenthesized [where reg = testRegistry and mname = "''User''"
        and path = "splitPath ''user_name''" and steps = "[]" and al = "''user''" and col = "''user_name''"
        and first = True and isOr = False and v = "StrV ''jane''"] r
    by (simp add: connector_def columnSQL_def quoteTableName_def)
  have 6: "selectQuery testRegistry rsMerged [''UserName'', ''Profile.BestPost.Title''] =
     Inr (expectedSelect3, [StrV ''foo'', IntV 12, StrV ''jane'', FloatV (123456 / 100)])"
    by code_simp
  from 1 2 3 4 5 6 show ?thesis by blast
qed

subsection \<open>Join aliases\<close>

























subsection \<open>Placeholders and arguments\<close>

lemma noPlaceholder_append [simp]:
  "noPlaceholder (xs @ ys) \<longleftrightarrow> noPlaceholder xs \<and> noPlaceholder ys"
  by (auto simp: noPlaceholder_def)

lemma noPlaceholder_Cons [simp]:
  "noPlaceholder (c # cs) \<longleftrightarrow> c \<noteq> CHR ''?'' \<and> noPlaceholder cs"
  by (auto simp: noPlaceholder_def)

lemma noPlaceholder_Nil [simp]: "noPlaceholder []"
  by (simp add: noPlaceholder_def)


































end
